theory Spec2Isabelle
  imports Complex_Main "HOL-Library.Sublist"
begin

section \<open>Data model (models.py, scheduler.py)\<close>

text \<open>
  Conventions of the embedding.
  \<^item> The engine is embedded twice.  In the first embedding a Python \<open>float\<close> is an
    exact \<open>real\<close>: sums, products and comparisons are the mathematical ones, without
    rounding, NaN or infinities.  The second embedding (names ending in \<open>_f\<close> or \<open>F\<close>)
    repeats the engine over IEEE-754 doubles; the properties that rounding or \<open>nan\<close>
    decide are stated there.
  \<^item> A \<open>datetime\<close> is a whole number of microseconds; the difference of two of them
    is a \<open>timedelta\<close>, again in microseconds.
  \<^item> A statement that can raise returns \<open>py_exc + 'a\<close>, with \<open>Inl\<close> the exception.
  \<^item> Where the source stores a formatted text (an alert, a reason, an ISO timestamp),
    the model stores the values the text is made from.
  \<^item> Field names of different classes are kept apart by a short prefix
    (\<open>v_\<close>, \<open>c_\<close>, \<open>r_\<close>, \<open>p_\<close>, \<open>cmd_\<close>, \<open>x_\<close>).
\<close>

type_synonym datetime = int
type_synonym timedelta = int

definition total_seconds :: "timedelta \<Rightarrow> real" where
  "total_seconds d = real_of_int d / 1000000"

datatype py_exc = ValueError | ZeroDivisionError

text \<open>
  \<open>VehicleState\<close> is a \<open>Literal\<close> of three strings, which nothing enforces at run time
  (the request model of \<open>main.py\<close> takes any string), so the state is a string.
\<close>

type_synonym VehicleState = string

definition DISPONIVEL :: VehicleState where
  "DISPONIVEL = ''DISPONIVEL''"

definition EM_ROTA :: VehicleState where
  "EM_ROTA = ''EM_ROTA''"

definition MANUTENCAO :: VehicleState where
  "MANUTENCAO = ''MANUTENCAO''"

record Vehicle =
  v_id :: string
  v_battery_kwh :: real
  v_soc :: real
  v_soh :: real
  v_temp_c :: real
  v_state :: VehicleState
  v_charger_id :: "string option"

record Charger =
  c_id :: string
  c_max_kw :: real
  c_enabled :: bool
  c_efficiency :: real

record RoutePlan =
  r_id :: string
  r_vehicle_id :: string
  r_start_time :: datetime
  r_end_time :: datetime
  r_distance_km :: real
  r_eta_minutes :: real
  r_consumption_kwh :: real
  r_required_soc_min :: real

record EnergyPricePoint =
  p_ts :: datetime
  p_eur_per_kwh :: real

record SiteConstraints =
  site_max_kw :: real

record ChargingCommand =
  cmd_vehicle_id :: string
  cmd_charger_id :: string
  set_kw :: real
  reason :: string

text \<open>
  An alert is a formatted string in the source; the model keeps what the string is
  built from: the vehicle id, and for the critical alert the power it prints.
\<close>

datatype alert =
    RouteOverdue string
  | Critical string real

text \<open>
  An explanation is a dictionary with a fixed set of keys per branch.  \<open>status\<close> and
  \<open>motivo\<close> are always there, the fifteen keys of \<open>base_expl\<close> for every vehicle the
  allocation loop visits, the four sizing keys in the sizing branch only.
\<close>

datatype status = ignorado | ok | erro | planeado | nao_planeado

datatype motivo =
    Estado VehicleState
  | NaoLigado
  | CarregadorNaoExiste string
  | CarregadorDesativado string
  | SemRota
  | SocSuficiente
  | RotaJaDeviaTerComecado
  | PotenciaEscolhida

record base_expl =
  x_vehicle_id :: string
  x_charger_id :: string
  soc_atual :: real
  soc_min_rota :: real
  defice_soc :: real
  bateria_kwh :: real
  minutos_ate_rota :: real
  limite_site_kw :: real
  restante_site_kw :: real
  limite_carregador_kw :: real
  route_start_time :: datetime
  route_end_time :: datetime
  price_now_eur_kwh :: "real option"
  best_price_until_route_eur_kwh :: "real option"
  price_delay_applied :: bool

record sizing_expl =
  need_kwh :: real
  kw_medio_necessario :: real
  kw_pedido :: real
  kw_final :: real

record explanation =
  x_base :: "base_expl option"
  x_sizing :: "sizing_expl option"
  x_status :: status
  x_motivo :: motivo

record PlanResult =
  ts :: datetime
  total_kw :: real
  commands :: "ChargingCommand list"
  alerts :: "alert list"
  explanations :: "string \<rightharpoonup> explanation"

type_synonym triple = "Vehicle \<times> Charger \<times> RoutePlan"

section \<open>Built-ins of the language used by the scheduler\<close>

text \<open>
  \<open>min(xs, key=k)\<close>: the first element with the least key; \<open>ValueError\<close> on an empty
  sequence.
\<close>

fun min_scan :: "('a \<Rightarrow> real) \<Rightarrow> 'a \<Rightarrow> 'a list \<Rightarrow> 'a" where
  "min_scan k best [] = best"
| "min_scan k best (x # xs) = min_scan k (if k x < k best then x else best) xs"

definition py_min_key :: "('a \<Rightarrow> real) \<Rightarrow> 'a list \<Rightarrow> py_exc + 'a" where
  "py_min_key k xs = (case xs of [] \<Rightarrow> Inl ValueError | x # rest \<Rightarrow> Inr (min_scan k x rest))"

definition py_min :: "real list \<Rightarrow> py_exc + real" where
  "py_min xs = py_min_key (\<lambda>x. x) xs"

text \<open>\<open>a / b\<close> on floats: \<open>ZeroDivisionError\<close> when the divisor is zero.\<close>

definition py_truediv :: "real \<Rightarrow> real \<Rightarrow> py_exc + real" where
  "py_truediv a b = (if b = 0 then Inl ZeroDivisionError else Inr (a / b))"

text \<open>\<open>round(x, n)\<close>: to \<open>n\<close> decimals, a tie going to the even neighbour.\<close>

definition py_round :: "real \<Rightarrow> nat \<Rightarrow> real" where
  "py_round x n =
     (let s = x * 10 ^ n;
          f = \<lfloor>s\<rfloor>;
          d = s - of_int f
      in of_int (if d < 1 / 2 then f
                 else if 1 / 2 < d then f + 1
                 else if even f then f else f + 1) / 10 ^ n)"

text \<open>
  \<open>xs.sort(key=k, reverse=True)\<close>: descending by key, and stable: elements with equal
  keys keep the order they had.  It is the library's stable insertion sort on the
  negated key.
\<close>

definition sort_reverse :: "('a \<Rightarrow> real) \<Rightarrow> 'a list \<Rightarrow> 'a list" where
  "sort_reverse k xs = sort_key (\<lambda>x. - k x) xs"

section \<open>scheduler.py\<close>

definition clamp :: "real \<Rightarrow> real \<Rightarrow> real \<Rightarrow> real" where
  "clamp x lo hi = max lo (min hi x)"

subsection \<open>Price helpers\<close>

definition price_at :: "EnergyPricePoint list \<Rightarrow> datetime \<Rightarrow> py_exc + real option" where
  "price_at prices t =
     (if prices = [] then Inr None
      else case py_min_key (\<lambda>p. \<bar>total_seconds (p_ts p - t)\<bar>) prices of
             Inl e \<Rightarrow> Inl e
           | Inr best \<Rightarrow> Inr (Some (p_eur_per_kwh best)))"

definition min_price_until ::
  "EnergyPricePoint list \<Rightarrow> datetime \<Rightarrow> datetime \<Rightarrow> py_exc + real option" where
  "min_price_until prices start end' =
     (if prices = [] then Inr None
      else let window = map p_eur_per_kwh (filter (\<lambda>p. start \<le> p_ts p \<and> p_ts p \<le> end') prices)
           in if window = [] then Inr None
              else case py_min window of
                     Inl e \<Rightarrow> Inl e
                   | Inr m \<Rightarrow> Inr (Some m))"

subsection \<open>Deferral decision\<close>

definition should_delay_charging ::
  "real option \<Rightarrow> real option \<Rightarrow> real \<Rightarrow> real \<Rightarrow> real \<Rightarrow> real \<Rightarrow> bool" where
  "should_delay_charging price_now best_future_price minutes_to_start deficit_soc
       delay_margin urgency_minutes =
     (if deficit_soc \<le> 0 then False
      else if minutes_to_start \<le> urgency_minutes then False
      else if price_now = None \<or> best_future_price = None then False
      else the price_now > the best_future_price * (1 + delay_margin))"

text \<open>The defaults of the two keyword parameters.\<close>

definition default_delay_margin :: real where
  "default_delay_margin = 15 / 100"

definition default_urgency_minutes :: real where
  "default_urgency_minutes = 60"

subsection \<open>Battery-friendly curtailment and urgency\<close>

definition battery_friendly_kw :: "Vehicle \<Rightarrow> Charger \<Rightarrow> real \<Rightarrow> real" where
  "battery_friendly_kw vehicle charger requested_kw =
     (let kw = requested_kw;
          kw = (if v_soc vehicle \<ge> 80 / 100 then kw * (5 / 10) else kw);
          kw = (if v_soc vehicle \<ge> 92 / 100 then kw * (3 / 10) else kw);
          kw = (if v_temp_c vehicle \<ge> 40 then kw * (5 / 10) else kw)
      in clamp kw 0 (c_max_kw charger))"

definition compute_urgency :: "Vehicle \<Rightarrow> RoutePlan \<Rightarrow> datetime \<Rightarrow> real" where
  "compute_urgency vehicle route now =
     (let time_to_start = total_seconds (r_start_time route - now) / 60;
          deficit_soc = max 0 (r_required_soc_min route - v_soc vehicle)
      in deficit_soc * 1000 + max 0 (180 - time_to_start))"

subsection \<open>make\_plan: the two dictionaries\<close>

definition charger_by_id :: "Charger list \<Rightarrow> string \<rightharpoonup> Charger" where
  "charger_by_id chargers = foldl (\<lambda>m c. m(c_id c \<mapsto> c)) Map.empty chargers"

definition route_by_vehicle :: "RoutePlan list \<Rightarrow> string \<rightharpoonup> RoutePlan" where
  "route_by_vehicle routes = foldl (\<lambda>m r. m(r_vehicle_id r \<mapsto> r)) Map.empty routes"

subsection \<open>make\_plan: filtering\<close>

definition ignored :: "motivo \<Rightarrow> explanation" where
  "ignored m = \<lparr>x_base = None, x_sizing = None, x_status = ignorado, x_motivo = m\<rparr>"

text \<open>
  One iteration of the first loop: either the vehicle gets its \<open>ignorado\<close> record, or
  its triple is appended to \<open>eligible\<close>.  \<open>not v.charger_id\<close> holds for \<open>None\<close> and for
  the empty string; a dataclass instance is always truthy, so \<open>not ch\<close> and \<open>not rt\<close>
  hold for a missing key only (\<open>dict.get\<close> giving \<open>None\<close>).
\<close>

definition filter_step ::
  "(string \<rightharpoonup> Charger) \<Rightarrow> (string \<rightharpoonup> RoutePlan) \<Rightarrow>
   (string \<rightharpoonup> explanation) \<times> triple list \<Rightarrow> Vehicle \<Rightarrow>
   (string \<rightharpoonup> explanation) \<times> triple list" where
  "filter_step cb rb acc v =
     (let expl = fst acc; eligible = snd acc
      in if v_state v \<noteq> DISPONIVEL
         then (expl(v_id v \<mapsto> ignored (Estado (v_state v))), eligible)
         else if v_charger_id v = None \<or> v_charger_id v = Some []
         then (expl(v_id v \<mapsto> ignored NaoLigado), eligible)
         else
      let ch = cb (the (v_charger_id v))
      in if ch = None
         then (expl(v_id v \<mapsto> ignored (CarregadorNaoExiste (the (v_charger_id v)))), eligible)
         else if \<not> c_enabled (the ch)
         then (expl(v_id v \<mapsto> ignored (CarregadorDesativado (c_id (the ch)))), eligible)
         else
      let rt = rb (v_id v)
      in if rt = None
         then (expl(v_id v \<mapsto> ignored SemRota), eligible)
         else (expl, eligible @ [(v, the ch, the rt)]))"

definition filtragem ::
  "(string \<rightharpoonup> Charger) \<Rightarrow> (string \<rightharpoonup> RoutePlan) \<Rightarrow> Vehicle list \<Rightarrow>
   (string \<rightharpoonup> explanation) \<times> triple list" where
  "filtragem cb rb vehicles = foldl (filter_step cb rb) (Map.empty, []) vehicles"

subsection \<open>make\_plan: planning\<close>

record loop_state =
  remaining_kw :: real
  l_commands :: "ChargingCommand list"
  l_alerts :: "alert list"
  l_explanations :: "string \<rightharpoonup> explanation"

datatype flow = Continue | Break

definition command_reason :: string where
  "command_reason = ''Urgencia/rota + limites do site + protecao da bateria + custo energia''"

text \<open>
  One iteration of the second loop, on the triple \<open>(v, ch, rt)\<close>, in two parts.  The
  result says whether the loop goes on (\<open>continue\<close>, or the end of the body) or stops
  (\<open>break\<close>).  \<open>plan_sizing\<close> is the body from \<open>need_kwh = ...\<close> on.
\<close>

definition plan_sizing ::
  "loop_state \<Rightarrow> triple \<Rightarrow> base_expl \<Rightarrow> real \<Rightarrow> real \<Rightarrow> bool \<Rightarrow>
   py_exc + (flow \<times> loop_state)" where
  "plan_sizing st t base deficit_soc minutes_to_start delay_applied =
     (let v = fst t; ch = fst (snd t); rt = snd (snd t);
          need = deficit_soc * v_battery_kwh v;
          hours = minutes_to_start / 60
      in case py_truediv need (max hours (1 / 1000000)) of
           Inl e \<Rightarrow> Inl e
         | Inr avg_kw_needed \<Rightarrow>
      (let requested_kw = min avg_kw_needed (min (c_max_kw ch) (remaining_kw st));
           requested_kw = clamp requested_kw 0 (c_max_kw ch);
           requested_kw = (if delay_applied then 0 else requested_kw);
           final_kw = battery_friendly_kw v ch requested_kw;
           expl = (l_explanations st)(v_id v \<mapsto>
                     \<lparr>x_base = Some base,
                      x_sizing = Some \<lparr>need_kwh = py_round need 2,
                                       kw_medio_necessario = py_round avg_kw_needed 2,
                                       kw_pedido = py_round requested_kw 2,
                                       kw_final = py_round final_kw 2\<rparr>,
                      x_status = (if final_kw > 1 / 100 then planeado else nao_planeado),
                      x_motivo = PotenciaEscolhida\<rparr>)
       in if final_kw \<le> 1 / 100
          then Inr (Continue, st\<lparr>l_explanations := expl\<rparr>)
          else
       let remaining = remaining_kw st - final_kw;
           cmds = l_commands st @ [\<lparr>cmd_vehicle_id = v_id v, cmd_charger_id = c_id ch,
                                    set_kw = final_kw, reason = command_reason\<rparr>];
           als = (if v_soc v < r_required_soc_min rt \<and> minutes_to_start < 60
                  then l_alerts st @ [Critical (v_id v) final_kw]
                  else l_alerts st)
       in Inr (if remaining \<le> 1 / 100 then Break else Continue,
               \<lparr>remaining_kw = remaining, l_commands = cmds, l_alerts = als,
                l_explanations = expl\<rparr>)))"

definition plan_step ::
  "datetime \<Rightarrow> EnergyPricePoint list \<Rightarrow> SiteConstraints \<Rightarrow> loop_state \<Rightarrow> triple \<Rightarrow>
   py_exc + (flow \<times> loop_state)" where
  "plan_step now prices site st t =
     (let v = fst t; ch = fst (snd t); rt = snd (snd t);
          deficit_soc = max 0 (r_required_soc_min rt - v_soc v);
          minutes_to_start = total_seconds (r_start_time rt - now) / 60
      in case price_at prices now of
           Inl e \<Rightarrow> Inl e
         | Inr price_now \<Rightarrow>
      (case min_price_until prices now (r_start_time rt) of
           Inl e \<Rightarrow> Inl e
         | Inr best_price \<Rightarrow>
      (let delay_applied =
             should_delay_charging price_now best_price minutes_to_start deficit_soc
               default_delay_margin default_urgency_minutes;
           base = \<lparr>x_vehicle_id = v_id v,
                   x_charger_id = c_id ch,
                   soc_atual = v_soc v,
                   soc_min_rota = r_required_soc_min rt,
                   defice_soc = deficit_soc,
                   bateria_kwh = v_battery_kwh v,
                   minutos_ate_rota = py_round minutes_to_start 1,
                   limite_site_kw = site_max_kw site,
                   restante_site_kw = py_round (remaining_kw st) 2,
                   limite_carregador_kw = c_max_kw ch,
                   route_start_time = r_start_time rt,
                   route_end_time = r_end_time rt,
                   price_now_eur_kwh = price_now,
                   best_price_until_route_eur_kwh = best_price,
                   price_delay_applied = delay_applied\<rparr>
       in if deficit_soc \<le> 0
          then Inr (Continue,
                    st\<lparr>l_explanations := (l_explanations st)(v_id v \<mapsto>
                         \<lparr>x_base = Some base, x_sizing = None,
                          x_status = ok, x_motivo = SocSuficiente\<rparr>)\<rparr>)
          else if minutes_to_start \<le> 0
          then Inr (Continue,
                    st\<lparr>l_alerts := l_alerts st @ [RouteOverdue (v_id v)],
                       l_explanations := (l_explanations st)(v_id v \<mapsto>
                         \<lparr>x_base = Some base, x_sizing = None,
                          x_status = erro, x_motivo = RotaJaDeviaTerComecado\<rparr>)\<rparr>)
          else plan_sizing st t base deficit_soc minutes_to_start delay_applied)))"

fun plan_loop ::
  "datetime \<Rightarrow> EnergyPricePoint list \<Rightarrow> SiteConstraints \<Rightarrow> loop_state \<Rightarrow> triple list \<Rightarrow>
   py_exc + loop_state" where
  "plan_loop now prices site st [] = Inr st"
| "plan_loop now prices site st (t # rest) =
     (case plan_step now prices site st t of
        Inl e \<Rightarrow> Inl e
      | Inr (Break, st') \<Rightarrow> Inr st'
      | Inr (Continue, st') \<Rightarrow> plan_loop now prices site st' rest)"

text \<open>
  The triples the loop has run its body on, in order: the list up to and including the
  one where it leaves (for the proofs only; the source keeps no such list).
\<close>

fun visited ::
  "datetime \<Rightarrow> EnergyPricePoint list \<Rightarrow> SiteConstraints \<Rightarrow> loop_state \<Rightarrow> triple list \<Rightarrow>
   triple list" where
  "visited now prices site st [] = []"
| "visited now prices site st (t # rest) =
     t # (case plan_step now prices site st t of
            Inl e \<Rightarrow> []
          | Inr (Break, st') \<Rightarrow> []
          | Inr (Continue, st') \<Rightarrow> visited now prices site st' rest)"

text \<open>The sorted list the second loop runs over.\<close>

definition allocation_order ::
  "datetime \<Rightarrow> Vehicle list \<Rightarrow> Charger list \<Rightarrow> RoutePlan list \<Rightarrow> triple list" where
  "allocation_order now vehicles chargers routes =
     sort_reverse (\<lambda>t. compute_urgency (fst t) (snd (snd t)) now)
       (snd (filtragem (charger_by_id chargers) (route_by_vehicle routes) vehicles))"

definition initial_state ::
  "Vehicle list \<Rightarrow> Charger list \<Rightarrow> RoutePlan list \<Rightarrow> SiteConstraints \<Rightarrow> loop_state" where
  "initial_state vehicles chargers routes site =
     \<lparr>remaining_kw = site_max_kw site, l_commands = [], l_alerts = [],
      l_explanations =
        fst (filtragem (charger_by_id chargers) (route_by_vehicle routes) vehicles)\<rparr>"

definition make_plan ::
  "datetime \<Rightarrow> Vehicle list \<Rightarrow> Charger list \<Rightarrow> RoutePlan list \<Rightarrow> EnergyPricePoint list \<Rightarrow>
   SiteConstraints \<Rightarrow> py_exc + PlanResult" where
  "make_plan now vehicles chargers routes prices site =
     (let st0 = initial_state vehicles chargers routes site
      in case plan_loop now prices site st0 (allocation_order now vehicles chargers routes) of
           Inl e \<Rightarrow> Inl e
         | Inr st \<Rightarrow>
             Inr \<lparr>ts = now,
                  total_kw = site_max_kw site - remaining_kw st,
                  commands = l_commands st,
                  alerts = l_alerts st,
                  explanations = l_explanations st\<rparr>)"

text \<open>The triples \<open>make_plan\<close> runs the loop body on.\<close>

definition visited_by_plan ::
  "datetime \<Rightarrow> Vehicle list \<Rightarrow> Charger list \<Rightarrow> RoutePlan list \<Rightarrow> EnergyPricePoint list \<Rightarrow>
   SiteConstraints \<Rightarrow> triple list" where
  "visited_by_plan now vehicles chargers routes prices site =
     visited now prices site (initial_state vehicles chargers routes site)
       (allocation_order now vehicles chargers routes)"

text \<open>The conditions under which the first loop appends a vehicle to \<open>eligible\<close>.\<close>

definition is_eligible ::
  "(string \<rightharpoonup> Charger) \<Rightarrow> (string \<rightharpoonup> RoutePlan) \<Rightarrow> Vehicle \<Rightarrow> bool" where
  "is_eligible cb rb v \<longleftrightarrow>
     v_state v = DISPONIVEL \<and> v_charger_id v \<noteq> None \<and> v_charger_id v \<noteq> Some [] \<and>
     cb (the (v_charger_id v)) \<noteq> None \<and> c_enabled (the (cb (the (v_charger_id v)))) \<and>
     rb (v_id v) \<noteq> None"

definition triple_of ::
  "(string \<rightharpoonup> Charger) \<Rightarrow> (string \<rightharpoonup> RoutePlan) \<Rightarrow> Vehicle \<Rightarrow> triple" where
  "triple_of cb rb v = (v, the (cb (the (v_charger_id v))), the (rb (v_id v)))"

text \<open>
  The curtailment factor as the specification words it: one half from a state of charge
  of 0.80, a further 0.3 from 0.92, one half from 40 degrees, multiplied together.
\<close>

definition curtailment_factor :: "Vehicle \<Rightarrow> real" where
  "curtailment_factor v =
     (if v_soc v \<ge> 80 / 100 then 5 / 10 else 1) *
     (if v_soc v \<ge> 92 / 100 then 3 / 10 else 1) *
     (if v_temp_c v \<ge> 40 then 5 / 10 else 1)"

text \<open>
  The deficit and the minutes to the start of the route, as both loops of \<open>make_plan\<close>
  and \<open>compute_urgency\<close> compute them from a triple.
\<close>

definition deficit_of :: "triple \<Rightarrow> real" where
  "deficit_of t = max 0 (r_required_soc_min (snd (snd t)) - v_soc (fst t))"

definition minutes_of :: "datetime \<Rightarrow> triple \<Rightarrow> real" where
  "minutes_of now t = total_seconds (r_start_time (snd (snd t)) - now) / 60"

text \<open>
  \<open>final_kw\<close> of the sizing branch, from the state, the triple, the deficit, the
  minutes to the start and the deferral decision.
\<close>

definition sized_kw :: "loop_state \<Rightarrow> triple \<Rightarrow> real \<Rightarrow> real \<Rightarrow> bool \<Rightarrow> real" where
  "sized_kw st t d m dl =
     battery_friendly_kw (fst t) (fst (snd t))
       (if dl then 0
        else clamp (min (d * v_battery_kwh (fst t) / max (m / 60) (1 / 1000000))
                      (min (c_max_kw (fst (snd t))) (remaining_kw st)))
               0 (c_max_kw (fst (snd t))))"

text \<open>The vehicle an alert names.\<close>

fun alert_vehicle :: "alert \<Rightarrow> string" where
  "alert_vehicle (RouteOverdue i) = i"
| "alert_vehicle (Critical i kw) = i"

subsection \<open>Inputs for the worked examples\<close>

text \<open>
  One vehicle at a state of charge of 0.3 that needs 0.8 in 120 minutes on a 50 kW
  charger (25 kW suffice); a second one like it on another charger;
  a route that started 10 minutes ago; a disabled charger with the identity of the
  first one.  Times are microseconds from \<open>now = 0\<close>.
\<close>

definition ex_v1 :: Vehicle where
  "ex_v1 = \<lparr>v_id = ''V1'', v_battery_kwh = 100, v_soc = 3 / 10, v_soh = 1, v_temp_c = 20,
            v_state = DISPONIVEL, v_charger_id = Some ''C1''\<rparr>"


definition ex_c1 :: Charger where
  "ex_c1 = \<lparr>c_id = ''C1'', c_max_kw = 50, c_enabled = True, c_efficiency = 92 / 100\<rparr>"



definition ex_r1 :: RoutePlan where
  "ex_r1 = \<lparr>r_id = ''R1'', r_vehicle_id = ''V1'', r_start_time = 7200000000,
            r_end_time = 10800000000, r_distance_km = 40, r_eta_minutes = 60,
            r_consumption_kwh = 12, r_required_soc_min = 8 / 10\<rparr>"


definition ex_r_late :: RoutePlan where
  "ex_r_late = \<lparr>r_id = ''R0'', r_vehicle_id = ''V1'', r_start_time = - 600000000,
                r_end_time = 3000000000, r_distance_km = 40, r_eta_minutes = 60,
                r_consumption_kwh = 12, r_required_soc_min = 8 / 10\<rparr>"

definition ex_site :: SiteConstraints where
  "ex_site = \<lparr>site_max_kw = 100\<rparr>"

definition ex_base :: base_expl where
  "ex_base = \<lparr>x_vehicle_id = ''V1'', x_charger_id = ''C1'', soc_atual = 3 / 10,
              soc_min_rota = 8 / 10, defice_soc = 1 / 2, bateria_kwh = 100,
              minutos_ate_rota = 120, limite_site_kw = 100, restante_site_kw = 0,
              limite_carregador_kw = 50, route_start_time = 7200000000,
              route_end_time = 10800000000, price_now_eur_kwh = None,
              best_price_until_route_eur_kwh = None, price_delay_applied = False\<rparr>"

section \<open>The same engine in IEEE-754 double arithmetic\<close>

text \<open>
  A Python \<open>float\<close> as it is at run time: a binary64 value, \<open>inf\<close>, \<open>-inf\<close> or \<open>nan\<close>.
  \<open>Fin x\<close> stands for the double with the real value \<open>x\<close>; the sign of a zero is not
  kept (the scheduler never divides by a computed zero without raising, and compares
  zeros as equal).  Results of arithmetic are rounded to the nearest double, ties to the
  even significand, with overflow to the infinities and gradual underflow.
\<close>

datatype pyfloat = NaN | PInf | NInf | Fin real

text \<open>
  \<open>binade n x 0 1\<close>, for \<open>x > 0\<close> below the overflow threshold and enough fuel \<open>n\<close>,
  is \<open>2^e\<close> for the exponent \<open>e\<close> with \<open>2^e \<le> x < 2^(e+1)\<close>, and \<open>2^(-1022)\<close> for
  the subnormal range.
\<close>

fun binade :: "nat \<Rightarrow> real \<Rightarrow> int \<Rightarrow> real \<Rightarrow> real" where
  "binade 0 x e p = p"
| "binade (Suc n) x e p =
     (if 2 \<le> x then binade n (x / 2) (e + 1) (p * 2)
      else if x < 1 \<and> - 1022 < e then binade n (x * 2) (e - 1) (p / 2)
      else p)"

definition round_half_even :: "real \<Rightarrow> int" where
  "round_half_even q =
     (let f = \<lfloor>q\<rfloor>; d = q - of_int f
      in if d < 1 / 2 then f else if 1 / 2 < d then f + 1 else if even f then f else f + 1)"

text \<open>
  The least magnitude that rounds to an infinity, \<open>2^1024 - 2^970\<close>, and \<open>2^52\<close>, the
  number of units in the last place to a binade.
\<close>

definition overflow_threshold :: real where
  "overflow_threshold = 179769313486231580793728971405303415079934132710037826936173778980444968292764750946649017977587207096330286416692887910946555547851940402630657488671505820681908902000708383676273854845817711531764475730270069855571366959622842914819860834936475292719074168444365510704342711559699508093042880177904174497792"

definition ulps_per_binade :: real where
  "ulps_per_binade = 4503599627370496"

definition fl :: "real \<Rightarrow> pyfloat" where
  "fl x =
     (if x = 0 then Fin 0
      else if overflow_threshold \<le> \<bar>x\<bar> then (if 0 < x then PInf else NInf)
      else let u = binade 2200 \<bar>x\<bar> 0 1 / ulps_per_binade
           in Fin (of_int (round_half_even (x / u)) * u))"

fun neg_f :: "pyfloat \<Rightarrow> pyfloat" where
  "neg_f NaN = NaN"
| "neg_f PInf = NInf"
| "neg_f NInf = PInf"
| "neg_f (Fin x) = Fin (- x)"

fun abs_f :: "pyfloat \<Rightarrow> pyfloat" where
  "abs_f NaN = NaN"
| "abs_f PInf = PInf"
| "abs_f NInf = PInf"
| "abs_f (Fin x) = Fin \<bar>x\<bar>"

fun add_f :: "pyfloat \<Rightarrow> pyfloat \<Rightarrow> pyfloat" where
  "add_f NaN b = NaN"
| "add_f a NaN = NaN"
| "add_f PInf NInf = NaN"
| "add_f NInf PInf = NaN"
| "add_f PInf b = PInf"
| "add_f a PInf = PInf"
| "add_f NInf b = NInf"
| "add_f a NInf = NInf"
| "add_f (Fin x) (Fin y) = fl (x + y)"

definition sub_f :: "pyfloat \<Rightarrow> pyfloat \<Rightarrow> pyfloat" where
  "sub_f a b = add_f a (neg_f b)"

text \<open>The sign of a value that is not \<open>nan\<close>: -1, 0 or 1.\<close>

fun sign_f :: "pyfloat \<Rightarrow> int" where
  "sign_f NaN = 0"
| "sign_f PInf = 1"
| "sign_f NInf = - 1"
| "sign_f (Fin x) = (if 0 < x then 1 else if x < 0 then - 1 else 0)"

definition signed_inf :: "int \<Rightarrow> pyfloat" where
  "signed_inf s = (if s = 0 then NaN else if 0 < s then PInf else NInf)"

fun mul_f :: "pyfloat \<Rightarrow> pyfloat \<Rightarrow> pyfloat" where
  "mul_f NaN b = NaN"
| "mul_f a NaN = NaN"
| "mul_f (Fin x) (Fin y) = fl (x * y)"
| "mul_f a b = signed_inf (sign_f a * sign_f b)"

text \<open>
  \<open>a / b\<close> for a divisor other than zero; \<open>truediv_f\<close> is the operator, which raises on
  a zero divisor.
\<close>

fun quot_f :: "pyfloat \<Rightarrow> pyfloat \<Rightarrow> pyfloat" where
  "quot_f NaN b = NaN"
| "quot_f a NaN = NaN"
| "quot_f (Fin x) (Fin y) = fl (x / y)"
| "quot_f (Fin x) b = Fin 0"
| "quot_f a (Fin y) = signed_inf (sign_f a * sign_f (Fin y))"
| "quot_f a b = NaN"

definition truediv_f :: "pyfloat \<Rightarrow> pyfloat \<Rightarrow> py_exc + pyfloat" where
  "truediv_f a b = (if b = Fin 0 then Inl ZeroDivisionError else Inr (quot_f a b))"

text \<open>Comparisons: every comparison with \<open>nan\<close> is false.\<close>

fun lt_f :: "pyfloat \<Rightarrow> pyfloat \<Rightarrow> bool" where
  "lt_f NaN b = False"
| "lt_f a NaN = False"
| "lt_f (Fin x) (Fin y) = (x < y)"
| "lt_f PInf b = False"
| "lt_f a NInf = False"
| "lt_f a b = True"

definition le_f :: "pyfloat \<Rightarrow> pyfloat \<Rightarrow> bool" where
  "le_f a b \<longleftrightarrow> a \<noteq> NaN \<and> b \<noteq> NaN \<and> \<not> lt_f b a"

definition gt_f :: "pyfloat \<Rightarrow> pyfloat \<Rightarrow> bool" where
  "gt_f a b = lt_f b a"

definition ge_f :: "pyfloat \<Rightarrow> pyfloat \<Rightarrow> bool" where
  "ge_f a b = le_f b a"

text \<open>
  The built-ins \<open>max(a, b)\<close> and \<open>min(a, b)\<close>: the first argument unless the second is
  strictly beyond it, so a \<open>nan\<close> in second place is never returned and a \<open>nan\<close> in
  first place always is.
\<close>

definition max2 :: "pyfloat \<Rightarrow> pyfloat \<Rightarrow> pyfloat" where
  "max2 a b = (if gt_f b a then b else a)"

definition min2 :: "pyfloat \<Rightarrow> pyfloat \<Rightarrow> pyfloat" where
  "min2 a b = (if lt_f b a then b else a)"

definition min3 :: "pyfloat \<Rightarrow> pyfloat \<Rightarrow> pyfloat \<Rightarrow> pyfloat" where
  "min3 a b c = min2 (min2 a b) c"

fun round_f :: "pyfloat \<Rightarrow> nat \<Rightarrow> pyfloat" where
  "round_f (Fin x) n = fl (py_round x n)"
| "round_f a n = a"

subsection \<open>Data model over doubles\<close>

text \<open>
  The classes of \<open>models.py\<close> and \<open>scheduler.py\<close> again, every \<open>float\<close> field a
  \<open>pyfloat\<close>; the field names carry an \<open>f\<close> in front.
\<close>

record VehicleF =
  fv_id :: string
  fv_battery_kwh :: pyfloat
  fv_soc :: pyfloat
  fv_soh :: pyfloat
  fv_temp_c :: pyfloat
  fv_state :: VehicleState
  fv_charger_id :: "string option"

record ChargerF =
  fc_id :: string
  fc_max_kw :: pyfloat
  fc_enabled :: bool
  fc_efficiency :: pyfloat

record RoutePlanF =
  fr_id :: string
  fr_vehicle_id :: string
  fr_start_time :: datetime
  fr_end_time :: datetime
  fr_distance_km :: pyfloat
  fr_eta_minutes :: pyfloat
  fr_consumption_kwh :: pyfloat
  fr_required_soc_min :: pyfloat

record EnergyPricePointF =
  fp_ts :: datetime
  fp_eur_per_kwh :: pyfloat

record SiteConstraintsF =
  fsite_max_kw :: pyfloat

record ChargingCommandF =
  fcmd_vehicle_id :: string
  fcmd_charger_id :: string
  fset_kw :: pyfloat
  freason :: string

datatype alertF =
    RouteOverdueF string
  | CriticalF string pyfloat

record base_explF =
  fx_vehicle_id :: string
  fx_charger_id :: string
  fsoc_atual :: pyfloat
  fsoc_min_rota :: pyfloat
  fdefice_soc :: pyfloat
  fbateria_kwh :: pyfloat
  fminutos_ate_rota :: pyfloat
  flimite_site_kw :: pyfloat
  frestante_site_kw :: pyfloat
  flimite_carregador_kw :: pyfloat
  froute_start_time :: datetime
  froute_end_time :: datetime
  fprice_now_eur_kwh :: "pyfloat option"
  fbest_price_until_route_eur_kwh :: "pyfloat option"
  fprice_delay_applied :: bool

record sizing_explF =
  fneed_kwh :: pyfloat
  fkw_medio_necessario :: pyfloat
  fkw_pedido :: pyfloat
  fkw_final :: pyfloat

record explanationF =
  fx_base :: "base_explF option"
  fx_sizing :: "sizing_explF option"
  fx_status :: status
  fx_motivo :: motivo

record PlanResultF =
  f_ts :: datetime
  f_total_kw :: pyfloat
  f_commands :: "ChargingCommandF list"
  f_alerts :: "alertF list"
  f_explanations :: "string \<rightharpoonup> explanationF"

type_synonym tripleF = "VehicleF \<times> ChargerF \<times> RoutePlanF"

subsection \<open>Built-ins over doubles\<close>

text \<open>\<open>min(xs, key=k)\<close> with the keys compared as doubles.\<close>

fun min_scan_f :: "('a \<Rightarrow> pyfloat) \<Rightarrow> 'a \<Rightarrow> 'a list \<Rightarrow> 'a" where
  "min_scan_f k best [] = best"
| "min_scan_f k best (x # xs) = min_scan_f k (if lt_f (k x) (k best) then x else best) xs"

definition py_min_key_f :: "('a \<Rightarrow> pyfloat) \<Rightarrow> 'a list \<Rightarrow> py_exc + 'a" where
  "py_min_key_f k xs =
     (case xs of [] \<Rightarrow> Inl ValueError | x # rest \<Rightarrow> Inr (min_scan_f k x rest))"

text \<open>
  \<open>timedelta.total_seconds()\<close>: the quotient of the whole microseconds by \<open>10^6\<close>,
  rounded once.
\<close>

definition total_seconds_f :: "timedelta \<Rightarrow> pyfloat" where
  "total_seconds_f d = fl (real_of_int d / 1000000)"

text \<open>
  \<open>xs.sort(key=k, reverse=True)\<close>: a stable sort that compares keys with \<open><\<close> only and
  puts the greater keys first; elements whose keys are not below one another keep their
  order.  Written as an insertion sort from the right.
\<close>

fun insort_reverse_f :: "('a \<Rightarrow> pyfloat) \<Rightarrow> 'a \<Rightarrow> 'a list \<Rightarrow> 'a list" where
  "insort_reverse_f k x [] = [x]"
| "insort_reverse_f k x (y # ys) =
     (if lt_f (k x) (k y) then y # insort_reverse_f k x ys else x # y # ys)"

definition sort_reverse_f :: "('a \<Rightarrow> pyfloat) \<Rightarrow> 'a list \<Rightarrow> 'a list" where
  "sort_reverse_f k xs = foldr (insort_reverse_f k) xs []"

subsection \<open>scheduler.py over doubles\<close>

definition clamp_f :: "pyfloat \<Rightarrow> pyfloat \<Rightarrow> pyfloat \<Rightarrow> pyfloat" where
  "clamp_f x lo hi = max2 lo (min2 hi x)"

definition price_at_f :: "EnergyPricePointF list \<Rightarrow> datetime \<Rightarrow> py_exc + pyfloat option" where
  "price_at_f prices t =
     (if prices = [] then Inr None
      else case py_min_key_f (\<lambda>p. abs_f (total_seconds_f (fp_ts p - t))) prices of
             Inl e \<Rightarrow> Inl e
           | Inr best \<Rightarrow> Inr (Some (fp_eur_per_kwh best)))"

definition min_price_until_f ::
  "EnergyPricePointF list \<Rightarrow> datetime \<Rightarrow> datetime \<Rightarrow> py_exc + pyfloat option" where
  "min_price_until_f prices start end' =
     (if prices = [] then Inr None
      else let window = map fp_eur_per_kwh
                          (filter (\<lambda>p. start \<le> fp_ts p \<and> fp_ts p \<le> end') prices)
           in if window = [] then Inr None
              else case py_min_key_f (\<lambda>x. x) window of
                     Inl e \<Rightarrow> Inl e
                   | Inr m \<Rightarrow> Inr (Some m))"

definition should_delay_charging_f ::
  "pyfloat option \<Rightarrow> pyfloat option \<Rightarrow> pyfloat \<Rightarrow> pyfloat \<Rightarrow> pyfloat \<Rightarrow> pyfloat \<Rightarrow> bool" where
  "should_delay_charging_f price_now best_future_price minutes_to_start deficit_soc
       delay_margin urgency_minutes =
     (if le_f deficit_soc (Fin 0) then False
      else if le_f minutes_to_start urgency_minutes then False
      else if price_now = None \<or> best_future_price = None then False
      else gt_f (the price_now) (mul_f (the best_future_price) (add_f (Fin 1) delay_margin)))"

definition default_delay_margin_f :: pyfloat where
  "default_delay_margin_f = fl (15 / 100)"

definition default_urgency_minutes_f :: pyfloat where
  "default_urgency_minutes_f = Fin 60"

definition battery_friendly_kw_f :: "VehicleF \<Rightarrow> ChargerF \<Rightarrow> pyfloat \<Rightarrow> pyfloat" where
  "battery_friendly_kw_f vehicle charger requested_kw =
     (let kw = requested_kw;
          kw = (if ge_f (fv_soc vehicle) (fl (80 / 100)) then mul_f kw (fl (5 / 10)) else kw);
          kw = (if ge_f (fv_soc vehicle) (fl (92 / 100)) then mul_f kw (fl (3 / 10)) else kw);
          kw = (if ge_f (fv_temp_c vehicle) (Fin 40) then mul_f kw (fl (5 / 10)) else kw)
      in clamp_f kw (Fin 0) (fc_max_kw charger))"

definition compute_urgency_f :: "VehicleF \<Rightarrow> RoutePlanF \<Rightarrow> datetime \<Rightarrow> pyfloat" where
  "compute_urgency_f vehicle route now =
     (let time_to_start = quot_f (total_seconds_f (fr_start_time route - now)) (Fin 60);
          deficit_soc = max2 (Fin 0) (sub_f (fr_required_soc_min route) (fv_soc vehicle))
      in add_f (mul_f deficit_soc (Fin 1000)) (max2 (Fin 0) (sub_f (Fin 180) time_to_start)))"

definition charger_by_id_f :: "ChargerF list \<Rightarrow> string \<rightharpoonup> ChargerF" where
  "charger_by_id_f chargers = foldl (\<lambda>m c. m(fc_id c \<mapsto> c)) Map.empty chargers"

definition route_by_vehicle_f :: "RoutePlanF list \<Rightarrow> string \<rightharpoonup> RoutePlanF" where
  "route_by_vehicle_f routes = foldl (\<lambda>m r. m(fr_vehicle_id r \<mapsto> r)) Map.empty routes"

definition ignored_f :: "motivo \<Rightarrow> explanationF" where
  "ignored_f m = \<lparr>fx_base = None, fx_sizing = None, fx_status = ignorado, fx_motivo = m\<rparr>"

definition filter_step_f ::
  "(string \<rightharpoonup> ChargerF) \<Rightarrow> (string \<rightharpoonup> RoutePlanF) \<Rightarrow>
   (string \<rightharpoonup> explanationF) \<times> tripleF list \<Rightarrow> VehicleF \<Rightarrow>
   (string \<rightharpoonup> explanationF) \<times> tripleF list" where
  "filter_step_f cb rb acc v =
     (let expl = fst acc; eligible = snd acc
      in if fv_state v \<noteq> DISPONIVEL
         then (expl(fv_id v \<mapsto> ignored_f (Estado (fv_state v))), eligible)
         else if fv_charger_id v = None \<or> fv_charger_id v = Some []
         then (expl(fv_id v \<mapsto> ignored_f NaoLigado), eligible)
         else
      let ch = cb (the (fv_charger_id v))
      in if ch = None
         then (expl(fv_id v \<mapsto> ignored_f (CarregadorNaoExiste (the (fv_charger_id v)))), eligible)
         else if \<not> fc_enabled (the ch)
         then (expl(fv_id v \<mapsto> ignored_f (CarregadorDesativado (fc_id (the ch)))), eligible)
         else
      let rt = rb (fv_id v)
      in if rt = None
         then (expl(fv_id v \<mapsto> ignored_f SemRota), eligible)
         else (expl, eligible @ [(v, the ch, the rt)]))"

definition filtragem_f ::
  "(string \<rightharpoonup> ChargerF) \<Rightarrow> (string \<rightharpoonup> RoutePlanF) \<Rightarrow> VehicleF list \<Rightarrow>
   (string \<rightharpoonup> explanationF) \<times> tripleF list" where
  "filtragem_f cb rb vehicles = foldl (filter_step_f cb rb) (Map.empty, []) vehicles"

record loop_stateF =
  fremaining_kw :: pyfloat
  fl_commands :: "ChargingCommandF list"
  fl_alerts :: "alertF list"
  fl_explanations :: "string \<rightharpoonup> explanationF"

definition plan_sizing_f ::
  "loop_stateF \<Rightarrow> tripleF \<Rightarrow> base_explF \<Rightarrow> pyfloat \<Rightarrow> pyfloat \<Rightarrow> bool \<Rightarrow>
   py_exc + (flow \<times> loop_stateF)" where
  "plan_sizing_f st t base deficit_soc minutes_to_start delay_applied =
     (let v = fst t; ch = fst (snd t); rt = snd (snd t);
          need = mul_f deficit_soc (fv_battery_kwh v);
          hours = quot_f minutes_to_start (Fin 60)
      in case truediv_f need (max2 hours (fl (1 / 1000000))) of
           Inl e \<Rightarrow> Inl e
         | Inr avg_kw_needed \<Rightarrow>
      (let requested_kw = min3 avg_kw_needed (fc_max_kw ch) (fremaining_kw st);
           requested_kw = clamp_f requested_kw (Fin 0) (fc_max_kw ch);
           requested_kw = (if delay_applied then Fin 0 else requested_kw);
           final_kw = battery_friendly_kw_f v ch requested_kw;
           expl = (fl_explanations st)(fv_id v \<mapsto>
                     \<lparr>fx_base = Some base,
                      fx_sizing = Some \<lparr>fneed_kwh = round_f need 2,
                                        fkw_medio_necessario = round_f avg_kw_needed 2,
                                        fkw_pedido = round_f requested_kw 2,
                                        fkw_final = round_f final_kw 2\<rparr>,
                      fx_status = (if gt_f final_kw (fl (1 / 100)) then planeado else nao_planeado),
                      fx_motivo = PotenciaEscolhida\<rparr>)
       in if le_f final_kw (fl (1 / 100))
          then Inr (Continue, st\<lparr>fl_explanations := expl\<rparr>)
          else
       let remaining = sub_f (fremaining_kw st) final_kw;
           cmds = fl_commands st @ [\<lparr>fcmd_vehicle_id = fv_id v, fcmd_charger_id = fc_id ch,
                                     fset_kw = final_kw, freason = command_reason\<rparr>];
           als = (if lt_f (fv_soc v) (fr_required_soc_min rt) \<and> lt_f minutes_to_start (Fin 60)
                  then fl_alerts st @ [CriticalF (fv_id v) final_kw]
                  else fl_alerts st)
       in Inr (if le_f remaining (fl (1 / 100)) then Break else Continue,
               \<lparr>fremaining_kw = remaining, fl_commands = cmds, fl_alerts = als,
                fl_explanations = expl\<rparr>)))"

definition plan_step_f ::
  "datetime \<Rightarrow> EnergyPricePointF list \<Rightarrow> SiteConstraintsF \<Rightarrow> loop_stateF \<Rightarrow> tripleF \<Rightarrow>
   py_exc + (flow \<times> loop_stateF)" where
  "plan_step_f now prices site st t =
     (let v = fst t; ch = fst (snd t); rt = snd (snd t);
          deficit_soc = max2 (Fin 0) (sub_f (fr_required_soc_min rt) (fv_soc v));
          minutes_to_start = quot_f (total_seconds_f (fr_start_time rt - now)) (Fin 60)
      in case price_at_f prices now of
           Inl e \<Rightarrow> Inl e
         | Inr price_now \<Rightarrow>
      (case min_price_until_f prices now (fr_start_time rt) of
           Inl e \<Rightarrow> Inl e
         | Inr best_price \<Rightarrow>
      (let delay_applied =
             should_delay_charging_f price_now best_price minutes_to_start deficit_soc
               default_delay_margin_f default_urgency_minutes_f;
           base = \<lparr>fx_vehicle_id = fv_id v,
                   fx_charger_id = fc_id ch,
                   fsoc_atual = fv_soc v,
                   fsoc_min_rota = fr_required_soc_min rt,
                   fdefice_soc = deficit_soc,
                   fbateria_kwh = fv_battery_kwh v,
                   fminutos_ate_rota = round_f minutes_to_start 1,
                   flimite_site_kw = fsite_max_kw site,
                   frestante_site_kw = round_f (fremaining_kw st) 2,
                   flimite_carregador_kw = fc_max_kw ch,
                   froute_start_time = fr_start_time rt,
                   froute_end_time = fr_end_time rt,
                   fprice_now_eur_kwh = price_now,
                   fbest_price_until_route_eur_kwh = best_price,
                   fprice_delay_applied = delay_applied\<rparr>
       in if le_f deficit_soc (Fin 0)
          then Inr (Continue,
                    st\<lparr>fl_explanations := (fl_explanations st)(fv_id v \<mapsto>
                         \<lparr>fx_base = Some base, fx_sizing = None,
                          fx_status = ok, fx_motivo = SocSuficiente\<rparr>)\<rparr>)
          else if le_f minutes_to_start (Fin 0)
          then Inr (Continue,
                    st\<lparr>fl_alerts := fl_alerts st @ [RouteOverdueF (fv_id v)],
                       fl_explanations := (fl_explanations st)(fv_id v \<mapsto>
                         \<lparr>fx_base = Some base, fx_sizing = None,
                          fx_status = erro, fx_motivo = RotaJaDeviaTerComecado\<rparr>)\<rparr>)
          else plan_sizing_f st t base deficit_soc minutes_to_start delay_applied)))"

fun plan_loop_f ::
  "datetime \<Rightarrow> EnergyPricePointF list \<Rightarrow> SiteConstraintsF \<Rightarrow> loop_stateF \<Rightarrow> tripleF list \<Rightarrow>
   py_exc + loop_stateF" where
  "plan_loop_f now prices site st [] = Inr st"
| "plan_loop_f now prices site st (t # rest) =
     (case plan_step_f now prices site st t of
        Inl e \<Rightarrow> Inl e
      | Inr (Break, st') \<Rightarrow> Inr st'
      | Inr (Continue, st') \<Rightarrow> plan_loop_f now prices site st' rest)"

definition eligible_f :: "VehicleF list \<Rightarrow> ChargerF list \<Rightarrow> RoutePlanF list \<Rightarrow> tripleF list" where
  "eligible_f vehicles chargers routes =
     snd (filtragem_f (charger_by_id_f chargers) (route_by_vehicle_f routes) vehicles)"

definition urgency_key_f :: "datetime \<Rightarrow> tripleF \<Rightarrow> pyfloat" where
  "urgency_key_f now t = compute_urgency_f (fst t) (snd (snd t)) now"

definition allocation_order_f ::
  "datetime \<Rightarrow> VehicleF list \<Rightarrow> ChargerF list \<Rightarrow> RoutePlanF list \<Rightarrow> tripleF list" where
  "allocation_order_f now vehicles chargers routes =
     sort_reverse_f (urgency_key_f now) (eligible_f vehicles chargers routes)"

definition initial_state_f ::
  "VehicleF list \<Rightarrow> ChargerF list \<Rightarrow> RoutePlanF list \<Rightarrow> SiteConstraintsF \<Rightarrow> loop_stateF" where
  "initial_state_f vehicles chargers routes site =
     \<lparr>fremaining_kw = fsite_max_kw site, fl_commands = [], fl_alerts = [],
      fl_explanations =
        fst (filtragem_f (charger_by_id_f chargers) (route_by_vehicle_f routes) vehicles)\<rparr>"

definition finish_f :: "datetime \<Rightarrow> SiteConstraintsF \<Rightarrow> loop_stateF \<Rightarrow> PlanResultF" where
  "finish_f now site st =
     \<lparr>f_ts = now,
      f_total_kw = sub_f (fsite_max_kw site) (fremaining_kw st),
      f_commands = fl_commands st,
      f_alerts = fl_alerts st,
      f_explanations = fl_explanations st\<rparr>"

definition make_plan_f ::
  "datetime \<Rightarrow> VehicleF list \<Rightarrow> ChargerF list \<Rightarrow> RoutePlanF list \<Rightarrow> EnergyPricePointF list \<Rightarrow>
   SiteConstraintsF \<Rightarrow> py_exc + PlanResultF" where
  "make_plan_f now vehicles chargers routes prices site =
     (case plan_loop_f now prices site (initial_state_f vehicles chargers routes site)
             (allocation_order_f now vehicles chargers routes) of
        Inl e \<Rightarrow> Inl e
      | Inr st \<Rightarrow> Inr (finish_f now site st))"





subsection \<open>Inputs for the worked examples over doubles\<close>

text \<open>
  The first vehicle of the real-number examples; the same with a battery capacity of
  \<open>nan\<close>; and two vehicles whose deficits are both 0.3 in exact arithmetic but 0.3
  and 0.30000000000000004 in doubles (\<open>0.5 - 0.2\<close> against \<open>0.4 - 0.1\<close>), with routes four
  hours ahead.
\<close>

definition fx_v1 :: VehicleF where
  "fx_v1 = \<lparr>fv_id = ''V1'', fv_battery_kwh = Fin 100, fv_soc = fl (3 / 10), fv_soh = Fin 1,
             fv_temp_c = Fin 20, fv_state = DISPONIVEL, fv_charger_id = Some ''C1''\<rparr>"

definition fx_nan :: VehicleF where
  "fx_nan = \<lparr>fv_id = ''V1'', fv_battery_kwh = NaN, fv_soc = fl (3 / 10), fv_soh = Fin 1,
              fv_temp_c = Fin 20, fv_state = DISPONIVEL, fv_charger_id = Some ''C1''\<rparr>"

definition fx_va :: VehicleF where
  "fx_va = \<lparr>fv_id = ''A'', fv_battery_kwh = Fin 100, fv_soc = fl (2 / 10), fv_soh = Fin 1,
             fv_temp_c = Fin 20, fv_state = DISPONIVEL, fv_charger_id = Some ''C1''\<rparr>"

definition fx_vb :: VehicleF where
  "fx_vb = \<lparr>fv_id = ''B'', fv_battery_kwh = Fin 100, fv_soc = fl (1 / 10), fv_soh = Fin 1,
             fv_temp_c = Fin 20, fv_state = DISPONIVEL, fv_charger_id = Some ''C2''\<rparr>"

definition fx_c1 :: ChargerF where
  "fx_c1 = \<lparr>fc_id = ''C1'', fc_max_kw = Fin 50, fc_enabled = True, fc_efficiency = fl (92 / 100)\<rparr>"

definition fx_c2 :: ChargerF where
  "fx_c2 = \<lparr>fc_id = ''C2'', fc_max_kw = Fin 50, fc_enabled = True, fc_efficiency = fl (92 / 100)\<rparr>"

definition fx_r1 :: RoutePlanF where
  "fx_r1 = \<lparr>fr_id = ''R1'', fr_vehicle_id = ''V1'', fr_start_time = 7200000000,
             fr_end_time = 10800000000, fr_distance_km = Fin 40, fr_eta_minutes = Fin 60,
             fr_consumption_kwh = Fin 12, fr_required_soc_min = fl (8 / 10)\<rparr>"

definition fx_ra :: RoutePlanF where
  "fx_ra = \<lparr>fr_id = ''RA'', fr_vehicle_id = ''A'', fr_start_time = 14400000000,
             fr_end_time = 18000000000, fr_distance_km = Fin 40, fr_eta_minutes = Fin 60,
             fr_consumption_kwh = Fin 12, fr_required_soc_min = fl (5 / 10)\<rparr>"

definition fx_rb :: RoutePlanF where
  "fx_rb = \<lparr>fr_id = ''RB'', fr_vehicle_id = ''B'', fr_start_time = 14400000000,
             fr_end_time = 18000000000, fr_distance_km = Fin 40, fr_eta_minutes = Fin 60,
             fr_consumption_kwh = Fin 12, fr_required_soc_min = fl (4 / 10)\<rparr>"

text \<open>\<open>sum(xs)\<close> over doubles, from the left, starting at zero.\<close>

definition sum_f :: "pyfloat list \<Rightarrow> pyfloat" where
  "sum_f xs = foldl add_f (Fin 0) xs"


section \<open>The first loop\<close>

lemma filter_step_snd:
  "snd (filter_step cb rb (e, el) v) =
     (if is_eligible cb rb v then el @ [triple_of cb rb v] else el)"
  by (auto simp: filter_step_def is_eligible_def triple_of_def Let_def)


lemma filter_step_base:
  "\<forall>k x. e k = Some x \<longrightarrow> x_base x = None \<Longrightarrow>
   fst (filter_step cb rb (e, el) v) k = Some x \<Longrightarrow> x_base x = None"
  by (auto simp: filter_step_def ignored_def Let_def split: if_splits)

lemma foldl_filter_step_snd:
  "snd (foldl (filter_step cb rb) (e, el) vs) = el @ map (triple_of cb rb) (filter (is_eligible cb rb) vs)"
proof (induction vs arbitrary: e el)
  case Nil then show ?case by simp
next
  case (Cons v vs)
  obtain e' el' where st: "filter_step cb rb (e, el) v = (e', el')" by (cases "filter_step cb rb (e, el) v")
  have "el' = (if is_eligible cb rb v then el @ [triple_of cb rb v] else el)"
    using filter_step_snd[of cb rb e el v] st by simp
  then show ?case using Cons.IH[of e' el'] st by simp
qed


lemma foldl_filter_step_base:
  "\<forall>k x. e k = Some x \<longrightarrow> x_base x = None \<Longrightarrow>
   fst (foldl (filter_step cb rb) (e, el) vs) k = Some x \<Longrightarrow> x_base x = None"
proof (induction vs arbitrary: e el)
  case Nil then show ?case by simp
next
  case (Cons v vs)
  obtain e' el' where st: "filter_step cb rb (e, el) v = (e', el')" by (cases "filter_step cb rb (e, el) v")
  have "\<forall>k x. e' k = Some x \<longrightarrow> x_base x = None"
    using filter_step_base[OF Cons.prems(1), of cb rb el v] st by simp
  then show ?case using Cons.IH[of e' el'] Cons.prems(2) st by simp
qed

lemma filtragem_eligible:
  "snd (filtragem cb rb vs) = map (triple_of cb rb) (filter (is_eligible cb rb) vs)"
  by (simp add: filtragem_def foldl_filter_step_snd)


lemma filtragem_base:
  "fst (filtragem cb rb vs) k = Some x \<Longrightarrow> x_base x = None"
  unfolding filtragem_def by (rule foldl_filter_step_base[of Map.empty]) auto

section \<open>One iteration of the second loop\<close>

lemma battery_friendly_factor:
  "battery_friendly_kw v ch r = clamp (r * curtailment_factor v) 0 (c_max_kw ch)"
  by (simp add: battery_friendly_kw_def curtailment_factor_def Let_def)

lemma price_at_returns: "\<exists>r. price_at prices t = Inr r"
  by (cases prices) (simp_all add: price_at_def py_min_key_def)

lemma min_price_until_returns: "\<exists>r. min_price_until prices s e = Inr r"
proof (cases "map p_eur_per_kwh (filter (\<lambda>p. s \<le> p_ts p \<and> p_ts p \<le> e) prices)")
  case Nil then show ?thesis by (simp add: min_price_until_def)
next
  case (Cons a list) then show ?thesis
    by (simp add: min_price_until_def py_min_def py_min_key_def)
qed

lemma curtailment_factor_range: "0 < curtailment_factor v \<and> curtailment_factor v \<le> 1"
  by (simp add: curtailment_factor_def)

lemma clamp_pos: "0 < clamp x 0 hi \<Longrightarrow> 0 < x \<and> clamp x 0 hi \<le> hi \<and> clamp x 0 hi \<le> x"
  by (simp add: clamp_def max_def min_def split: if_splits)

lemma battery_friendly_bounds:
  assumes "0 < battery_friendly_kw v ch r"
  shows "battery_friendly_kw v ch r \<le> c_max_kw ch" and "battery_friendly_kw v ch r \<le> r"
proof -
  let ?f = "curtailment_factor v"
  have c: "0 < r * ?f \<and> clamp (r * ?f) 0 (c_max_kw ch) \<le> c_max_kw ch \<and> clamp (r * ?f) 0 (c_max_kw ch) \<le> r * ?f"
    using assms clamp_pos[of "r * ?f" "c_max_kw ch"] by (simp add: battery_friendly_factor)
  have f: "0 < ?f" "?f \<le> 1" using curtailment_factor_range by auto
  have rpos: "0 < r" using c f by (simp add: zero_less_mult_iff)
  have "r * ?f \<le> r * 1" using rpos f by (intro mult_left_mono) auto
  then show "battery_friendly_kw v ch r \<le> r" using c by (simp add: battery_friendly_factor)
  show "battery_friendly_kw v ch r \<le> c_max_kw ch" using c by (simp add: battery_friendly_factor)
qed

lemma sized_kw_bounds:
  assumes "0 < sized_kw st t d m dl"
  shows "sized_kw st t d m dl \<le> c_max_kw (fst (snd t))"
    and "sized_kw st t d m dl \<le> remaining_kw st"
    and "\<not> dl"
proof -
  let ?req = "if dl then 0
        else clamp (min (d * v_battery_kwh (fst t) / max (m / 60) (1 / 1000000))
                      (min (c_max_kw (fst (snd t))) (remaining_kw st)))
               0 (c_max_kw (fst (snd t)))"
  have pos: "0 < battery_friendly_kw (fst t) (fst (snd t)) ?req"
    using assms unfolding sized_kw_def .
  from battery_friendly_bounds(1)[OF pos]
  show "sized_kw st t d m dl \<le> c_max_kw (fst (snd t))" unfolding sized_kw_def .
  from battery_friendly_bounds(2)[OF pos]
  have le: "sized_kw st t d m dl \<le> ?req" unfolding sized_kw_def .
  then have rp: "0 < ?req" using assms by linarith
  then show "\<not> dl" by (auto split: if_splits)
  then have "?req = clamp (min (d * v_battery_kwh (fst t) / max (m / 60) (1 / 1000000))
                      (min (c_max_kw (fst (snd t))) (remaining_kw st))) 0 (c_max_kw (fst (snd t)))"
    by simp
  with rp clamp_pos[of "min (d * v_battery_kwh (fst t) / max (m / 60) (1 / 1000000))
                      (min (c_max_kw (fst (snd t))) (remaining_kw st))" "c_max_kw (fst (snd t))"]
  have "?req \<le> remaining_kw st" by simp
  with le show "sized_kw st t d m dl \<le> remaining_kw st" by linarith
qed

lemma truediv_guarded: "py_truediv a (max h (1 / 1000000)) = Inr (a / max h (1 / 1000000))"
proof -
  have "max h (1 / 1000000) \<noteq> 0" by (simp add: max_def)
  then show ?thesis by (simp only: py_truediv_def if_False)
qed

lemma plan_sizing_skip:
  assumes "sized_kw st t d m dl \<le> 1 / 100"
  shows "\<exists>e. plan_sizing st t base d m dl =
          Inr (Continue, st\<lparr>l_explanations := (l_explanations st)(v_id (fst t) \<mapsto> e)\<rparr>)
       \<and> x_base e = Some base \<and> x_status e = nao_planeado"
proof -
  have n: "\<not> 1 / 100 < sized_kw st t d m dl" using assms by simp
  show ?thesis
    unfolding plan_sizing_def Let_def truediv_guarded sum.case
    unfolding sized_kw_def[symmetric]
    apply (simp only: assms n if_True if_False)
    apply (rule exI, intro conjI, rule refl)
     apply simp_all
    done
qed

lemma plan_sizing_command:
  assumes "1 / 100 < sized_kw st t d m dl"
  shows "\<exists>e. plan_sizing st t base d m dl =
          Inr (if remaining_kw st - sized_kw st t d m dl \<le> 1 / 100 then Break else Continue,
               \<lparr>remaining_kw = remaining_kw st - sized_kw st t d m dl,
                l_commands = l_commands st @
                  [\<lparr>cmd_vehicle_id = v_id (fst t), cmd_charger_id = c_id (fst (snd t)),
                    set_kw = sized_kw st t d m dl, reason = command_reason\<rparr>],
                l_alerts = (if v_soc (fst t) < r_required_soc_min (snd (snd t)) \<and> m < 60
                            then l_alerts st @ [Critical (v_id (fst t)) (sized_kw st t d m dl)]
                            else l_alerts st),
                l_explanations = (l_explanations st)(v_id (fst t) \<mapsto> e)\<rparr>)
       \<and> x_base e = Some base \<and> x_status e = planeado"
proof -
  have n: "\<not> sized_kw st t d m dl \<le> 1 / 100" using assms by simp
  show ?thesis
    unfolding plan_sizing_def Let_def truediv_guarded sum.case
    unfolding sized_kw_def[symmetric]
    apply (simp only: assms n if_True if_False)
    apply (rule exI, intro conjI, rule refl)
     apply simp_all
    done
qed

lemma price_at_empty: "price_at [] t = Inr None"
  by (simp add: price_at_def)

lemma min_price_until_empty: "min_price_until [] s e = Inr None"
  by (simp add: min_price_until_def)

lemma no_delay_without_price: "\<not> should_delay_charging None bp m d mg um"
  by (simp add: should_delay_charging_def)

lemma plan_step_unfold:
  "\<exists>b. (prices = [] \<longrightarrow> \<not> price_delay_applied b) \<and>
     plan_step now prices site st t =
       (if deficit_of t \<le> 0
        then Inr (Continue,
                  st\<lparr>l_explanations := (l_explanations st)(v_id (fst t) \<mapsto>
                       \<lparr>x_base = Some b, x_sizing = None,
                        x_status = ok, x_motivo = SocSuficiente\<rparr>)\<rparr>)
        else if minutes_of now t \<le> 0
        then Inr (Continue,
                  st\<lparr>l_alerts := l_alerts st @ [RouteOverdue (v_id (fst t))],
                     l_explanations := (l_explanations st)(v_id (fst t) \<mapsto>
                       \<lparr>x_base = Some b, x_sizing = None,
                        x_status = erro, x_motivo = RotaJaDeviaTerComecado\<rparr>)\<rparr>)
        else plan_sizing st t b (deficit_of t) (minutes_of now t) (price_delay_applied b))"
proof -
  obtain pn where pn: "price_at prices now = Inr pn" using price_at_returns by blast
  obtain bp where bp: "min_price_until prices now (r_start_time (snd (snd t))) = Inr bp"
    using min_price_until_returns by blast
  define dl where "dl = should_delay_charging pn bp (minutes_of now t) (deficit_of t)
                          default_delay_margin default_urgency_minutes"
  define b where "b = \<lparr>x_vehicle_id = v_id (fst t),
                   x_charger_id = c_id (fst (snd t)),
                   soc_atual = v_soc (fst t),
                   soc_min_rota = r_required_soc_min (snd (snd t)),
                   defice_soc = deficit_of t,
                   bateria_kwh = v_battery_kwh (fst t),
                   minutos_ate_rota = py_round (minutes_of now t) 1,
                   limite_site_kw = site_max_kw site,
                   restante_site_kw = py_round (remaining_kw st) 2,
                   limite_carregador_kw = c_max_kw (fst (snd t)),
                   route_start_time = r_start_time (snd (snd t)),
                   route_end_time = r_end_time (snd (snd t)),
                   price_now_eur_kwh = pn,
                   best_price_until_route_eur_kwh = bp,
                   price_delay_applied = dl\<rparr>"
  have pd: "price_delay_applied b = dl" by (simp add: b_def)
  have "prices = [] \<Longrightarrow> pn = None" using pn by (simp add: price_at_empty)
  then have nd: "prices = [] \<longrightarrow> \<not> price_delay_applied b"
    unfolding pd dl_def by (simp add: no_delay_without_price)
  have eq: "plan_step now prices site st t =
       (if deficit_of t \<le> 0
        then Inr (Continue,
                  st\<lparr>l_explanations := (l_explanations st)(v_id (fst t) \<mapsto>
                       \<lparr>x_base = Some b, x_sizing = None,
                        x_status = ok, x_motivo = SocSuficiente\<rparr>)\<rparr>)
        else if minutes_of now t \<le> 0
        then Inr (Continue,
                  st\<lparr>l_alerts := l_alerts st @ [RouteOverdue (v_id (fst t))],
                     l_explanations := (l_explanations st)(v_id (fst t) \<mapsto>
                       \<lparr>x_base = Some b, x_sizing = None,
                        x_status = erro, x_motivo = RotaJaDeviaTerComecado\<rparr>)\<rparr>)
        else plan_sizing st t b (deficit_of t) (minutes_of now t) (price_delay_applied b))"
    unfolding pd
    unfolding plan_step_def Let_def pn bp sum.case deficit_of_def[symmetric]
      minutes_of_def[symmetric] dl_def[symmetric] b_def[symmetric]
    by (rule refl)
  from nd eq show ?thesis by blast
qed

lemma plan_step_shape:
  obtains (quiet) e b where
      "plan_step now prices site st t =
         Inr (Continue, st\<lparr>l_explanations := (l_explanations st)(v_id (fst t) \<mapsto> e)\<rparr>)"
      "x_base e = Some b" "prices = [] \<longrightarrow> \<not> price_delay_applied b"
      "deficit_of t \<le> 0 \<or> 0 < minutes_of now t"
      "x_status e = ok \<or> x_status e = nao_planeado"
  | (overdue) e b where
      "0 < deficit_of t" "minutes_of now t \<le> 0"
      "plan_step now prices site st t =
         Inr (Continue, st\<lparr>l_alerts := l_alerts st @ [RouteOverdue (v_id (fst t))],
                           l_explanations := (l_explanations st)(v_id (fst t) \<mapsto> e)\<rparr>)"
      "x_base e = Some b" "prices = [] \<longrightarrow> \<not> price_delay_applied b"
      "x_status e = erro"
  | (command) e b kw where
      "1 / 100 < kw" "kw \<le> c_max_kw (fst (snd t))" "kw \<le> remaining_kw st"
      "0 < deficit_of t" "0 < minutes_of now t"
      "plan_step now prices site st t =
         Inr (if remaining_kw st - kw \<le> 1 / 100 then Break else Continue,
              \<lparr>remaining_kw = remaining_kw st - kw,
               l_commands = l_commands st @
                 [\<lparr>cmd_vehicle_id = v_id (fst t), cmd_charger_id = c_id (fst (snd t)),
                   set_kw = kw, reason = command_reason\<rparr>],
               l_alerts = (if v_soc (fst t) < r_required_soc_min (snd (snd t)) \<and> minutes_of now t < 60
                           then l_alerts st @ [Critical (v_id (fst t)) kw]
                           else l_alerts st),
               l_explanations = (l_explanations st)(v_id (fst t) \<mapsto> e)\<rparr>)"
      "x_base e = Some b" "prices = [] \<longrightarrow> \<not> price_delay_applied b"
      "x_status e = planeado"
proof -
  obtain b where nd: "prices = [] \<longrightarrow> \<not> price_delay_applied b"
    and eq: "plan_step now prices site st t =
       (if deficit_of t \<le> 0
        then Inr (Continue,
                  st\<lparr>l_explanations := (l_explanations st)(v_id (fst t) \<mapsto>
                       \<lparr>x_base = Some b, x_sizing = None,
                        x_status = ok, x_motivo = SocSuficiente\<rparr>)\<rparr>)
        else if minutes_of now t \<le> 0
        then Inr (Continue,
                  st\<lparr>l_alerts := l_alerts st @ [RouteOverdue (v_id (fst t))],
                     l_explanations := (l_explanations st)(v_id (fst t) \<mapsto>
                       \<lparr>x_base = Some b, x_sizing = None,
                        x_status = erro, x_motivo = RotaJaDeviaTerComecado\<rparr>)\<rparr>)
        else plan_sizing st t b (deficit_of t) (minutes_of now t) (price_delay_applied b))"
    using plan_step_unfold[of prices now site st t] by blast
  let ?kw = "sized_kw st t (deficit_of t) (minutes_of now t) (price_delay_applied b)"
  consider (a) "deficit_of t \<le> 0"
    | (b) "0 < deficit_of t" "minutes_of now t \<le> 0"
    | (c) "0 < deficit_of t" "0 < minutes_of now t" "?kw \<le> 1 / 100"
    | (d) "0 < deficit_of t" "0 < minutes_of now t" "1 / 100 < ?kw"
    by linarith
  then show thesis
  proof cases
    case a
    show thesis
      by (rule quiet[of "\<lparr>x_base = Some b, x_sizing = None, x_status = ok, x_motivo = SocSuficiente\<rparr>" b])
         (use a nd eq in simp_all)
  next
    case b
    show thesis
      by (rule overdue[of "\<lparr>x_base = Some b, x_sizing = None, x_status = erro, x_motivo = RotaJaDeviaTerComecado\<rparr>" b])
         (use b nd eq in simp_all)
  next
    case c
    from plan_sizing_skip[OF c(3), of b] obtain e where
      e: "plan_sizing st t b (deficit_of t) (minutes_of now t) (price_delay_applied b) =
            Inr (Continue, st\<lparr>l_explanations := (l_explanations st)(v_id (fst t) \<mapsto> e)\<rparr>)"
         "x_base e = Some b" "x_status e = nao_planeado" by blast
    show thesis
      by (rule quiet[of e b]) (use c(1,2) nd eq e in simp_all)
  next
    case d
    from plan_sizing_command[OF d(3), of b] obtain e where
      e: "plan_sizing st t b (deficit_of t) (minutes_of now t) (price_delay_applied b) =
          Inr (if remaining_kw st - ?kw \<le> 1 / 100 then Break else Continue,
               \<lparr>remaining_kw = remaining_kw st - ?kw,
                l_commands = l_commands st @
                  [\<lparr>cmd_vehicle_id = v_id (fst t), cmd_charger_id = c_id (fst (snd t)),
                    set_kw = ?kw, reason = command_reason\<rparr>],
                l_alerts = (if v_soc (fst t) < r_required_soc_min (snd (snd t)) \<and> minutes_of now t < 60
                            then l_alerts st @ [Critical (v_id (fst t)) ?kw]
                            else l_alerts st),
                l_explanations = (l_explanations st)(v_id (fst t) \<mapsto> e)\<rparr>)"
         "x_base e = Some b" "x_status e = planeado" by blast
    have pos: "0 < ?kw" using d(3) by linarith
    have ps: "plan_step now prices site st t =
        plan_sizing st t b (deficit_of t) (minutes_of now t) (price_delay_applied b)"
      using d(1,2) eq by simp
    show thesis
      by (rule command[of ?kw e b])
         (use d sized_kw_bounds(1,2)[OF pos] nd e in \<open>simp_all only: ps\<close>)
  qed
qed

section \<open>The second loop\<close>

lemma plan_step_returns: "\<exists>f s'. plan_step now prices site st t = Inr (f, s')"
  by (rule plan_step_shape[of now prices site st t]) auto

lemma plan_loop_returns: "\<exists>s'. plan_loop now prices site st trs = Inr s'"
proof (induction trs arbitrary: st)
  case Nil
  show ?case by simp
next
  case (Cons t trs)
  obtain f s1 where s: "plan_step now prices site st t = Inr (f, s1)"
    using plan_step_returns by blast
  show ?case
  proof (cases f)
    case Continue
    then show ?thesis using s Cons.IH[of s1] by simp
  next
    case Break
    then show ?thesis using s by simp
  qed
qed

lemma plan_loop_invariant:
  assumes "plan_loop now prices site st trs = Inr st'"
    and "P st"
    and "\<And>s t f s'. P s \<Longrightarrow> t \<in> set trs \<Longrightarrow> plan_step now prices site s t = Inr (f, s') \<Longrightarrow> P s'"
  shows "P st'"
  using assms
proof (induction trs arbitrary: st)
  case Nil
  then show ?case by simp
next
  case (Cons t trs)
  obtain f s1 where s: "plan_step now prices site st t = Inr (f, s1)"
    using plan_step_returns by blast
  have p1: "P s1" by (rule Cons.prems(3)[OF Cons.prems(2) _ s]) simp
  show ?case
  proof (cases f)
    case Continue
    then have lp: "plan_loop now prices site s1 trs = Inr st'" using s Cons.prems(1) by simp
    show ?thesis
    proof (rule Cons.IH[OF lp p1])
      fix s u g s'
      assume "P s" "u \<in> set trs" "plan_step now prices site s u = Inr (g, s')"
      then show "P s'" using Cons.prems(3)[of s u g s'] by simp
    qed
  next
    case Break
    then have "st' = s1" using s Cons.prems(1) by simp
    then show ?thesis using p1 by simp
  qed
qed



lemma visited_prefix: "prefix (visited now prices site st trs) trs"
proof (induction trs arbitrary: st)
  case Nil
  show ?case by simp
next
  case (Cons t trs)
  obtain f s1 where s: "plan_step now prices site st t = Inr (f, s1)"
    using plan_step_returns by blast
  show ?case using s Cons.IH[of s1] by (cases f) simp_all
qed



section \<open>The dictionaries and the allocation order\<close>

lemma foldl_upd_lookup:
  "foldl (\<lambda>m x. m(key x \<mapsto> x)) m0 xs k =
     (if filter (\<lambda>x. key x = k) xs = [] then m0 k
      else Some (last (filter (\<lambda>x. key x = k) xs)))"
  by (induction xs arbitrary: m0) auto

lemma charger_by_id_lookup:
  "charger_by_id chargers k =
     (if filter (\<lambda>c. c_id c = k) chargers = [] then None
      else Some (last (filter (\<lambda>c. c_id c = k) chargers)))"
  unfolding charger_by_id_def by (simp add: foldl_upd_lookup)


lemma charger_by_id_key:
  assumes "charger_by_id chargers k = Some c"
  shows "c_id c = k"
proof -
  let ?fs = "filter (\<lambda>c. c_id c = k) chargers"
  have ne: "?fs \<noteq> []" and c: "c = last ?fs"
    using assms by (auto simp: charger_by_id_lookup split: if_splits)
  from ne have "last ?fs \<in> set ?fs" by (rule last_in_set)
  then show ?thesis using c by simp
qed

lemma allocation_order_set:
  "set (allocation_order now vehicles chargers routes) =
     triple_of (charger_by_id chargers) (route_by_vehicle routes) `
       {v \<in> set vehicles. is_eligible (charger_by_id chargers) (route_by_vehicle routes) v}"
  by (simp add: allocation_order_def sort_reverse_def filtragem_eligible)

lemma allocation_order_charger:
  assumes "t \<in> set (allocation_order now vehicles chargers routes)"
  shows "charger_by_id chargers (c_id (fst (snd t))) = Some (fst (snd t))"
proof -
  let ?cb = "charger_by_id chargers"
  obtain v where v: "is_eligible ?cb (route_by_vehicle routes) v"
    and t: "t = triple_of ?cb (route_by_vehicle routes) v"
    using assms unfolding allocation_order_set by blast
  from v obtain c where c: "?cb (the (v_charger_id v)) = Some c"
    by (auto simp: is_eligible_def)
  then have "c_id c = the (v_charger_id v)" by (rule charger_by_id_key)
  then show ?thesis using c t by (simp add: triple_of_def)
qed

lemma make_plan_unfold:
  "\<exists>s. plan_loop now prices site (initial_state vehicles chargers routes site)
          (allocation_order now vehicles chargers routes) = Inr s
     \<and> make_plan now vehicles chargers routes prices site =
         Inr \<lparr>ts = now, total_kw = site_max_kw site - remaining_kw s,
              commands = l_commands s, alerts = l_alerts s,
              explanations = l_explanations s\<rparr>"
proof -
  obtain s where s: "plan_loop now prices site (initial_state vehicles chargers routes site)
          (allocation_order now vehicles chargers routes) = Inr s"
    using plan_loop_returns by blast
  then show ?thesis by (simp add: make_plan_def)
qed

section \<open>The curtailment\<close>

text \<open>
  Claim C5.  The battery-friendly curtailment of a requested power \<open>r\<close> is
  \<open>r\<close> times the curtailment factor, clamped to \<open>[0, max_kw]\<close> of the charger; the
  factors compound, so from a state of charge of 0.92 the two of them make 0.15.
\<close>

theorem battery_friendly_kw_curtailment:
  "battery_friendly_kw v ch r = clamp (r * curtailment_factor v) 0 (c_max_kw ch)
   \<and> (92 / 100 \<le> v_soc v \<longrightarrow>
        curtailment_factor v = (15 / 100) * (if v_temp_c v \<ge> 40 then 5 / 10 else 1))"
  by (simp add: battery_friendly_kw_def curtailment_factor_def Let_def)

theorem battery_friendly_kw_curtailment_witness:
  "battery_friendly_kw
     \<lparr>v_id = ''V1'', v_battery_kwh = 100, v_soc = 95 / 100, v_soh = 1, v_temp_c = 20,
      v_state = DISPONIVEL, v_charger_id = Some ''C1''\<rparr>
     \<lparr>c_id = ''C1'', c_max_kw = 50, c_enabled = True, c_efficiency = 92 / 100\<rparr> 20 = 3"
  using battery_friendly_kw_curtailment
    [of "\<lparr>v_id = ''V1'', v_battery_kwh = 100, v_soc = 95 / 100, v_soh = 1, v_temp_c = 20,
          v_state = DISPONIVEL, v_charger_id = Some ''C1''\<rparr>"
        "\<lparr>c_id = ''C1'', c_max_kw = 50, c_enabled = True, c_efficiency = 92 / 100\<rparr>" 20]
  by (simp add: clamp_def)

section \<open>Commands: threshold, charger limit, site budget\<close>

lemma plan_step_commands:
  assumes "plan_step now prices site s t = Inr (f, s')"
  shows "l_commands s' = l_commands s \<and> remaining_kw s' = remaining_kw s
       \<or> (\<exists>kw. 1 / 100 < kw \<and> kw \<le> c_max_kw (fst (snd t)) \<and> kw \<le> remaining_kw s
             \<and> remaining_kw s' = remaining_kw s - kw
             \<and> l_commands s' = l_commands s @
                  [\<lparr>cmd_vehicle_id = v_id (fst t), cmd_charger_id = c_id (fst (snd t)),
                    set_kw = kw, reason = command_reason\<rparr>])"
proof (rule plan_step_shape[of now prices site s t])
  fix e b
  assume "plan_step now prices site s t =
         Inr (Continue, s\<lparr>l_explanations := (l_explanations s)(v_id (fst t) \<mapsto> e)\<rparr>)"
  then show ?thesis using assms by auto
next
  fix e b
  assume "plan_step now prices site s t =
         Inr (Continue, s\<lparr>l_alerts := l_alerts s @ [RouteOverdue (v_id (fst t))],
                           l_explanations := (l_explanations s)(v_id (fst t) \<mapsto> e)\<rparr>)"
  then show ?thesis using assms by auto
next
  fix e b kw
  assume k: "1 / 100 < kw" "kw \<le> c_max_kw (fst (snd t))" "kw \<le> remaining_kw s"
    and "plan_step now prices site s t =
         Inr (if remaining_kw s - kw \<le> 1 / 100 then Break else Continue,
              \<lparr>remaining_kw = remaining_kw s - kw,
               l_commands = l_commands s @
                 [\<lparr>cmd_vehicle_id = v_id (fst t), cmd_charger_id = c_id (fst (snd t)),
                   set_kw = kw, reason = command_reason\<rparr>],
               l_alerts = (if v_soc (fst t) < r_required_soc_min (snd (snd t)) \<and> minutes_of now t < 60
                           then l_alerts s @ [Critical (v_id (fst t)) kw]
                           else l_alerts s),
               l_explanations = (l_explanations s)(v_id (fst t) \<mapsto> e)\<rparr>)"
  then have "s' = \<lparr>remaining_kw = remaining_kw s - kw,
               l_commands = l_commands s @
                 [\<lparr>cmd_vehicle_id = v_id (fst t), cmd_charger_id = c_id (fst (snd t)),
                   set_kw = kw, reason = command_reason\<rparr>],
               l_alerts = (if v_soc (fst t) < r_required_soc_min (snd (snd t)) \<and> minutes_of now t < 60
                           then l_alerts s @ [Critical (v_id (fst t)) kw]
                           else l_alerts s),
               l_explanations = (l_explanations s)(v_id (fst t) \<mapsto> e)\<rparr>"
    using assms by simp
  then show ?thesis using k by (intro disjI2 exI[of _ kw]) simp
qed

lemma plan_loop_commands_threshold:
  assumes "plan_loop now prices site st trs = Inr st'"
    and "\<forall>c\<in>set (l_commands st). 1 / 100 < set_kw c"
  shows "\<forall>c\<in>set (l_commands st'). 1 / 100 < set_kw c"
proof (rule plan_loop_invariant[OF assms(1), where P = "\<lambda>s. \<forall>c\<in>set (l_commands s). 1 / 100 < set_kw c"])
  show "\<forall>c\<in>set (l_commands st). 1 / 100 < set_kw c" by (rule assms(2))
next
  fix s t f s'
  assume p: "\<forall>c\<in>set (l_commands s). 1 / 100 < set_kw c"
    and "plan_step now prices site s t = Inr (f, s')"
  from plan_step_commands[OF this(2)] p
  show "\<forall>c\<in>set (l_commands s'). 1 / 100 < set_kw c" by auto
qed

lemma plan_loop_commands_charger:
  assumes "plan_loop now prices site st trs = Inr st'"
    and "\<forall>c\<in>set (l_commands st). \<exists>ch. cb (cmd_charger_id c) = Some ch \<and> set_kw c \<le> c_max_kw ch"
    and "\<forall>t\<in>set trs. cb (c_id (fst (snd t))) = Some (fst (snd t))"
  shows "\<forall>c\<in>set (l_commands st'). \<exists>ch. cb (cmd_charger_id c) = Some ch \<and> set_kw c \<le> c_max_kw ch"
proof (rule plan_loop_invariant[OF assms(1),
        where P = "\<lambda>s. \<forall>c\<in>set (l_commands s). \<exists>ch. cb (cmd_charger_id c) = Some ch \<and> set_kw c \<le> c_max_kw ch"])
  show "\<forall>c\<in>set (l_commands st). \<exists>ch. cb (cmd_charger_id c) = Some ch \<and> set_kw c \<le> c_max_kw ch"
    by (rule assms(2))
next
  fix s t f s'
  assume p: "\<forall>c\<in>set (l_commands s). \<exists>ch. cb (cmd_charger_id c) = Some ch \<and> set_kw c \<le> c_max_kw ch"
    and t: "t \<in> set trs"
    and "plan_step now prices site s t = Inr (f, s')"
  from plan_step_commands[OF this(3)] p assms(3) t
  show "\<forall>c\<in>set (l_commands s'). \<exists>ch. cb (cmd_charger_id c) = Some ch \<and> set_kw c \<le> c_max_kw ch"
    by auto
qed

lemma plan_loop_budget:
  assumes "plan_loop now prices site st trs = Inr st'"
    and "sum_list (map set_kw (l_commands st)) = cap - remaining_kw st"
    and "l_commands st = [] \<or> 0 \<le> remaining_kw st"
  shows "sum_list (map set_kw (l_commands st')) = cap - remaining_kw st'
       \<and> (l_commands st' = [] \<or> 0 \<le> remaining_kw st')"
proof (rule plan_loop_invariant[OF assms(1),
        where P = "\<lambda>s. sum_list (map set_kw (l_commands s)) = cap - remaining_kw s
                     \<and> (l_commands s = [] \<or> 0 \<le> remaining_kw s)"])
  show "sum_list (map set_kw (l_commands st)) = cap - remaining_kw st
       \<and> (l_commands st = [] \<or> 0 \<le> remaining_kw st)" using assms(2,3) by simp
next
  fix s t f s'
  assume p: "sum_list (map set_kw (l_commands s)) = cap - remaining_kw s
       \<and> (l_commands s = [] \<or> 0 \<le> remaining_kw s)"
    and "plan_step now prices site s t = Inr (f, s')"
  from plan_step_commands[OF this(2)] p
  show "sum_list (map set_kw (l_commands s')) = cap - remaining_kw s'
       \<and> (l_commands s' = [] \<or> 0 \<le> remaining_kw s')" by auto
qed

text \<open>
  Claim C10.  Every command of the returned plan has \<open>set_kw\<close> above 0.01: when the
  curtailed final power of the sizing branch is at most 0.01, the vehicle is recorded
  as \<open>nao_planeado\<close>, the loop continues, and the state keeps its commands, its alerts
  and its remaining budget.
\<close>

theorem commands_above_threshold:
  "(\<exists>plan. make_plan now vehicles chargers routes prices site = Inr plan
      \<and> (\<forall>c\<in>set (commands plan). 1 / 100 < set_kw c))
   \<and> (sized_kw st t d m dl \<le> 1 / 100 \<longrightarrow>
        (\<exists>e. plan_sizing st t base d m dl =
                Inr (Continue, st\<lparr>l_explanations := (l_explanations st)(v_id (fst t) \<mapsto> e)\<rparr>)
            \<and> x_status e = nao_planeado))"
proof -
  obtain s where lp: "plan_loop now prices site (initial_state vehicles chargers routes site)
          (allocation_order now vehicles chargers routes) = Inr s"
    and mp: "make_plan now vehicles chargers routes prices site =
         Inr \<lparr>ts = now, total_kw = site_max_kw site - remaining_kw s,
              commands = l_commands s, alerts = l_alerts s,
              explanations = l_explanations s\<rparr>"
    using make_plan_unfold by blast
  have "\<forall>c\<in>set (l_commands s). 1 / 100 < set_kw c"
    by (rule plan_loop_commands_threshold[OF lp]) (simp add: initial_state_def)
  then have a: "\<exists>plan. make_plan now vehicles chargers routes prices site = Inr plan
      \<and> (\<forall>c\<in>set (commands plan). 1 / 100 < set_kw c)" using mp by simp
  have b: "sized_kw st t d m dl \<le> 1 / 100 \<longrightarrow>
        (\<exists>e. plan_sizing st t base d m dl =
                Inr (Continue, st\<lparr>l_explanations := (l_explanations st)(v_id (fst t) \<mapsto> e)\<rparr>)
            \<and> x_status e = nao_planeado)"
    using plan_sizing_skip[of st t d m dl base] by blast
  from a b show ?thesis by (rule conjI)
qed

text \<open>
  Claim C3.  Every command of the returned plan references a charger of the charger
  dictionary, and its \<open>set_kw\<close> is at most the \<open>max_kw\<close> of that charger.
\<close>

theorem command_within_charger_max:
  "\<exists>plan. make_plan now vehicles chargers routes prices site = Inr plan
      \<and> (\<forall>c\<in>set (commands plan).
            \<exists>ch. charger_by_id chargers (cmd_charger_id c) = Some ch \<and> set_kw c \<le> c_max_kw ch)"
proof -
  obtain s where lp: "plan_loop now prices site (initial_state vehicles chargers routes site)
          (allocation_order now vehicles chargers routes) = Inr s"
    and mp: "make_plan now vehicles chargers routes prices site =
         Inr \<lparr>ts = now, total_kw = site_max_kw site - remaining_kw s,
              commands = l_commands s, alerts = l_alerts s,
              explanations = l_explanations s\<rparr>"
    using make_plan_unfold by blast
  have "\<forall>c\<in>set (l_commands s).
          \<exists>ch. charger_by_id chargers (cmd_charger_id c) = Some ch \<and> set_kw c \<le> c_max_kw ch"
    by (rule plan_loop_commands_charger[OF lp])
       (simp_all add: initial_state_def allocation_order_charger)
  then show ?thesis using mp by simp
qed

text \<open>
  In exact arithmetic, and for a site cap that is not below -0.01, the commands stay
  within the cap: each command takes at most what remains.  The doubles of the source
  do not keep this (see the section on the site budget over doubles).
\<close>

lemma budget_exact_arithmetic:
  assumes "- (1 / 100) \<le> site_max_kw site"
  shows "\<exists>plan. make_plan now vehicles chargers routes prices site = Inr plan
      \<and> sum_list (map set_kw (commands plan)) \<le> site_max_kw site + 1 / 100"
proof -
  obtain s where lp: "plan_loop now prices site (initial_state vehicles chargers routes site)
          (allocation_order now vehicles chargers routes) = Inr s"
    and mp: "make_plan now vehicles chargers routes prices site =
         Inr \<lparr>ts = now, total_kw = site_max_kw site - remaining_kw s,
              commands = l_commands s, alerts = l_alerts s,
              explanations = l_explanations s\<rparr>"
    using make_plan_unfold by blast
  have "sum_list (map set_kw (l_commands s)) = site_max_kw site - remaining_kw s
       \<and> (l_commands s = [] \<or> 0 \<le> remaining_kw s)"
    by (rule plan_loop_budget[OF lp]) (simp_all add: initial_state_def)
  then have "sum_list (map set_kw (l_commands s)) \<le> site_max_kw site + 1 / 100"
    using assms by auto
  then show ?thesis using mp by simp
qed

section \<open>Totality, explanation keys, duplicates\<close>

lemma plan_step_explanation:
  assumes "plan_step now prices site s t = Inr (f, s')"
  shows "\<exists>e b. l_explanations s' = (l_explanations s)(v_id (fst t) \<mapsto> e) \<and> x_base e = Some b
            \<and> (prices = [] \<longrightarrow> \<not> price_delay_applied b)"
  by (rule plan_step_shape[of now prices site s t]) (use assms in \<open>auto split: if_splits\<close>)

lemma plan_loop_no_delay:
  assumes "plan_loop now [] site st trs = Inr st'"
    and "\<forall>k e b. l_explanations st k = Some e \<and> x_base e = Some b \<longrightarrow> \<not> price_delay_applied b"
  shows "\<forall>k e b. l_explanations st' k = Some e \<and> x_base e = Some b \<longrightarrow> \<not> price_delay_applied b"
proof (rule plan_loop_invariant[OF assms(1),
        where P = "\<lambda>s. \<forall>k e b. l_explanations s k = Some e \<and> x_base e = Some b \<longrightarrow> \<not> price_delay_applied b"])
  show "\<forall>k e b. l_explanations st k = Some e \<and> x_base e = Some b \<longrightarrow> \<not> price_delay_applied b"
    by (rule assms(2))
next
  fix s t f s'
  assume p: "\<forall>k e b. l_explanations s k = Some e \<and> x_base e = Some b \<longrightarrow> \<not> price_delay_applied b"
    and "plan_step now [] site s t = Inr (f, s')"
  from plan_step_explanation[OF this(2)] obtain e0 b0 where
    e: "l_explanations s' = (l_explanations s)(v_id (fst t) \<mapsto> e0)" "x_base e0 = Some b0"
       "\<not> price_delay_applied b0" by auto
  show "\<forall>k e b. l_explanations s' k = Some e \<and> x_base e = Some b \<longrightarrow> \<not> price_delay_applied b"
  proof (intro allI impI)
    fix k e b
    assume a: "l_explanations s' k = Some e \<and> x_base e = Some b"
    show "\<not> price_delay_applied b"
    proof (cases "k = v_id (fst t)")
      case True
      then show ?thesis using a e by simp
    next
      case False
      then show ?thesis using a e(1) p by simp
    qed
  qed
qed

text \<open>
  Claim C8.  \<open>make_plan\<close> returns a plan for every input: neither \<open>min\<close> on an empty
  sequence nor a division by zero is reached.  On an empty price sequence \<open>price_at\<close>
  and \<open>min_price_until\<close> return \<open>None\<close>, the deferral decision without prices is false,
  and in the plan no explanation of a visited vehicle has the deferral applied.
\<close>

theorem make_plan_total:
  "(\<exists>plan. make_plan now vehicles chargers routes prices site = Inr plan)
   \<and> price_at [] t = Inr None
   \<and> min_price_until [] start end' = Inr None
   \<and> \<not> should_delay_charging None None m d default_delay_margin default_urgency_minutes
   \<and> (\<exists>plan. make_plan now vehicles chargers routes [] site = Inr plan
        \<and> (\<forall>k e b. explanations plan k = Some e \<and> x_base e = Some b \<longrightarrow> \<not> price_delay_applied b))"
proof -
  have a: "\<exists>plan. make_plan now vehicles chargers routes prices site = Inr plan"
    using make_plan_unfold[of now prices site vehicles chargers routes] by blast
  obtain s where lp: "plan_loop now [] site (initial_state vehicles chargers routes site)
          (allocation_order now vehicles chargers routes) = Inr s"
    and mp: "make_plan now vehicles chargers routes [] site =
         Inr \<lparr>ts = now, total_kw = site_max_kw site - remaining_kw s,
              commands = l_commands s, alerts = l_alerts s,
              explanations = l_explanations s\<rparr>"
    using make_plan_unfold by blast
  have "\<forall>k e b. l_explanations s k = Some e \<and> x_base e = Some b \<longrightarrow> \<not> price_delay_applied b"
  proof (rule plan_loop_no_delay[OF lp], intro allI impI)
    fix k e b
    assume "l_explanations (initial_state vehicles chargers routes site) k = Some e \<and> x_base e = Some b"
    then show "\<not> price_delay_applied b"
      using filtragem_base[of "charger_by_id chargers" "route_by_vehicle routes" vehicles k e]
      by (simp add: initial_state_def)
  qed
  then have b: "\<exists>plan. make_plan now vehicles chargers routes [] site = Inr plan
        \<and> (\<forall>k e b. explanations plan k = Some e \<and> x_base e = Some b \<longrightarrow> \<not> price_delay_applied b)"
    using mp by simp
  show ?thesis
    using a b price_at_empty min_price_until_empty no_delay_without_price by blast
qed



section \<open>Overdue routes\<close>

lemma plan_step_other:
  assumes "plan_step now prices site s t = Inr (f, s')" and "k \<noteq> v_id (fst t)"
  shows "l_explanations s' k = l_explanations s k
       \<and> filter (\<lambda>a. alert_vehicle a = k) (l_alerts s') = filter (\<lambda>a. alert_vehicle a = k) (l_alerts s)
       \<and> filter (\<lambda>c. cmd_vehicle_id c = k) (l_commands s') = filter (\<lambda>c. cmd_vehicle_id c = k) (l_commands s)"
  by (rule plan_step_shape[of now prices site s t]) (use assms in \<open>auto split: if_splits\<close>)

lemma plan_loop_other:
  assumes "plan_loop now prices site st trs = Inr st'"
    and "k \<notin> (\<lambda>t. v_id (fst t)) ` set trs"
  shows "l_explanations st' k = l_explanations st k
       \<and> filter (\<lambda>a. alert_vehicle a = k) (l_alerts st') = filter (\<lambda>a. alert_vehicle a = k) (l_alerts st)
       \<and> filter (\<lambda>c. cmd_vehicle_id c = k) (l_commands st') = filter (\<lambda>c. cmd_vehicle_id c = k) (l_commands st)"
proof (rule plan_loop_invariant[OF assms(1), where P = "\<lambda>s. l_explanations s k = l_explanations st k
       \<and> filter (\<lambda>a. alert_vehicle a = k) (l_alerts s) = filter (\<lambda>a. alert_vehicle a = k) (l_alerts st)
       \<and> filter (\<lambda>c. cmd_vehicle_id c = k) (l_commands s) = filter (\<lambda>c. cmd_vehicle_id c = k) (l_commands st)"])
  show "l_explanations st k = l_explanations st k
       \<and> filter (\<lambda>a. alert_vehicle a = k) (l_alerts st) = filter (\<lambda>a. alert_vehicle a = k) (l_alerts st)
       \<and> filter (\<lambda>c. cmd_vehicle_id c = k) (l_commands st) = filter (\<lambda>c. cmd_vehicle_id c = k) (l_commands st)"
    by simp
next
  fix s t f s'
  assume p: "l_explanations s k = l_explanations st k
       \<and> filter (\<lambda>a. alert_vehicle a = k) (l_alerts s) = filter (\<lambda>a. alert_vehicle a = k) (l_alerts st)
       \<and> filter (\<lambda>c. cmd_vehicle_id c = k) (l_commands s) = filter (\<lambda>c. cmd_vehicle_id c = k) (l_commands st)"
    and t: "t \<in> set trs" and s: "plan_step now prices site s t = Inr (f, s')"
  have "k \<noteq> v_id (fst t)" using t assms(2) by auto
  from plan_step_other[OF s this] p
  show "l_explanations s' k = l_explanations st k
       \<and> filter (\<lambda>a. alert_vehicle a = k) (l_alerts s') = filter (\<lambda>a. alert_vehicle a = k) (l_alerts st)
       \<and> filter (\<lambda>c. cmd_vehicle_id c = k) (l_commands s') = filter (\<lambda>c. cmd_vehicle_id c = k) (l_commands st)"
    by simp
qed

lemma plan_step_overdue:
  assumes "0 < deficit_of t" and "minutes_of now t \<le> 0"
  shows "\<exists>e. plan_step now prices site s t =
           Inr (Continue, s\<lparr>l_alerts := l_alerts s @ [RouteOverdue (v_id (fst t))],
                             l_explanations := (l_explanations s)(v_id (fst t) \<mapsto> e)\<rparr>)
          \<and> x_status e = erro"
  by (rule plan_step_shape[of now prices site s t]) (use assms in auto)

lemma plan_loop_overdue:
  assumes "plan_loop now prices site st trs = Inr st'"
    and "t \<in> set (visited now prices site st trs)"
    and "distinct (map (\<lambda>t. v_id (fst t)) trs)"
    and "0 < deficit_of t" and "minutes_of now t \<le> 0"
  shows "(\<exists>e. l_explanations st' (v_id (fst t)) = Some e \<and> x_status e = erro)
       \<and> filter (\<lambda>a. alert_vehicle a = v_id (fst t)) (l_alerts st')
           = filter (\<lambda>a. alert_vehicle a = v_id (fst t)) (l_alerts st) @ [RouteOverdue (v_id (fst t))]
       \<and> filter (\<lambda>c. cmd_vehicle_id c = v_id (fst t)) (l_commands st')
           = filter (\<lambda>c. cmd_vehicle_id c = v_id (fst t)) (l_commands st)"
  using assms(1,2,3)
proof (induction trs arbitrary: st)
  case Nil
  then show ?case by simp
next
  case (Cons u trs)
  let ?k = "v_id (fst t)"
  obtain f s1 where s: "plan_step now prices site st u = Inr (f, s1)"
    using plan_step_returns by blast
  show ?case
  proof (cases "t = u")
    case True
    from plan_step_overdue[OF assms(4,5), where prices = prices and site = site and s = st] obtain e where
      e: "plan_step now prices site st t =
           Inr (Continue, st\<lparr>l_alerts := l_alerts st @ [RouteOverdue ?k],
                             l_explanations := (l_explanations st)(?k \<mapsto> e)\<rparr>)"
         "x_status e = erro" by blast
    let ?s1 = "st\<lparr>l_alerts := l_alerts st @ [RouteOverdue ?k],
                  l_explanations := (l_explanations st)(?k \<mapsto> e)\<rparr>"
    have lp: "plan_loop now prices site ?s1 trs = Inr st'"
      using Cons.prems(1) e(1) True by simp
    have "?k \<notin> (\<lambda>t. v_id (fst t)) ` set trs" using Cons.prems(3) True by auto
    from plan_loop_other[OF lp this] e(2) show ?thesis by simp
  next
    case False
    then have fc: "f = Continue" and tv: "t \<in> set (visited now prices site s1 trs)"
      using Cons.prems(2) s by (cases f; simp)+
    have lp: "plan_loop now prices site s1 trs = Inr st'" using Cons.prems(1) s fc by simp
    have "t \<in> set trs" using tv visited_prefix[of now prices site s1 trs] set_mono_prefix by blast
    then have "?k \<in> (\<lambda>t. v_id (fst t)) ` set trs" by (rule imageI)
    moreover have "v_id (fst u) \<notin> (\<lambda>t. v_id (fst t)) ` set trs" using Cons.prems(3) by simp
    ultimately have ne: "?k \<noteq> v_id (fst u)" by metis
    have d: "distinct (map (\<lambda>t. v_id (fst t)) trs)" using Cons.prems(3) by simp
    from Cons.IH[OF lp tv d] plan_step_other[OF s ne] show ?thesis by simp
  qed
qed

lemma allocation_order_distinct:
  assumes "distinct (map v_id vehicles)"
  shows "distinct (map (\<lambda>t. v_id (fst t)) (allocation_order now vehicles chargers routes))"
proof -
  let ?cb = "charger_by_id chargers" and ?rb = "route_by_vehicle routes"
  let ?el = "map (triple_of ?cb ?rb) (filter (is_eligible ?cb ?rb) vehicles)"
  have "(\<lambda>t. v_id (fst t)) \<circ> triple_of ?cb ?rb = v_id"
    by (simp add: fun_eq_iff triple_of_def)
  then have "map (\<lambda>t. v_id (fst t)) ?el = map v_id (filter (is_eligible ?cb ?rb) vehicles)"
    by (simp only: map_map)
  then have "distinct (map (\<lambda>t. v_id (fst t)) ?el)"
    using assms by (simp only: distinct_map_filter)
  then have "distinct ?el \<and> inj_on (\<lambda>t. v_id (fst t)) (set ?el)"
    by (simp only: distinct_map)
  then have "distinct (map (\<lambda>t. v_id (fst t)) (sort_key (\<lambda>t. - compute_urgency (fst t) (snd (snd t)) now) ?el))"
    by (simp only: distinct_map distinct_sort set_sort)
  then show ?thesis
    by (simp add: allocation_order_def sort_reverse_def filtragem_eligible)
qed

text \<open>
  Claim C7.  On a triple with a positive deficit whose route starts now or in the past,
  the iteration writes the explanation of the vehicle with status \<open>erro\<close>, appends one
  alert naming the vehicle, and continues with the commands and the remaining budget
  unchanged.  When the vehicle identities of the input are distinct and the loop visits
  the triple, the returned plan has that explanation, exactly one alert naming the
  vehicle (the overdue one), and no command for it.
\<close>

theorem overdue_route_no_command:
  assumes "0 < r_required_soc_min rt - v_soc v"
    and "total_seconds (r_start_time rt - now) / 60 \<le> 0"
  shows "(\<exists>e. plan_step now prices site st (v, ch, rt) =
            Inr (Continue, st\<lparr>l_alerts := l_alerts st @ [RouteOverdue (v_id v)],
                              l_explanations := (l_explanations st)(v_id v \<mapsto> e)\<rparr>)
           \<and> x_status e = erro)
     \<and> ((v, ch, rt) \<in> set (visited_by_plan now vehicles chargers routes prices site)
          \<and> distinct (map v_id vehicles) \<longrightarrow>
        (\<exists>plan e. make_plan now vehicles chargers routes prices site = Inr plan
           \<and> explanations plan (v_id v) = Some e \<and> x_status e = erro
           \<and> filter (\<lambda>a. alert_vehicle a = v_id v) (alerts plan) = [RouteOverdue (v_id v)]
           \<and> (\<forall>c\<in>set (commands plan). cmd_vehicle_id c \<noteq> v_id v)))"
proof -
  let ?t = "(v, ch, rt)"
  have d: "0 < deficit_of ?t" using assms(1) by (simp add: deficit_of_def)
  have m: "minutes_of now ?t \<le> 0" using assms(2) by (simp add: minutes_of_def)
  have a: "\<exists>e. plan_step now prices site st (v, ch, rt) =
            Inr (Continue, st\<lparr>l_alerts := l_alerts st @ [RouteOverdue (v_id v)],
                              l_explanations := (l_explanations st)(v_id v \<mapsto> e)\<rparr>)
           \<and> x_status e = erro"
    using plan_step_overdue[OF d m, where prices = prices and site = site and s = st] by simp
  have b: "\<exists>plan e. make_plan now vehicles chargers routes prices site = Inr plan
           \<and> explanations plan (v_id v) = Some e \<and> x_status e = erro
           \<and> filter (\<lambda>a. alert_vehicle a = v_id v) (alerts plan) = [RouteOverdue (v_id v)]
           \<and> (\<forall>c\<in>set (commands plan). cmd_vehicle_id c \<noteq> v_id v)"
    if vis: "?t \<in> set (visited_by_plan now vehicles chargers routes prices site)"
      and dis: "distinct (map v_id vehicles)"
  proof -
    obtain s where lp: "plan_loop now prices site (initial_state vehicles chargers routes site)
          (allocation_order now vehicles chargers routes) = Inr s"
      and mp: "make_plan now vehicles chargers routes prices site =
         Inr \<lparr>ts = now, total_kw = site_max_kw site - remaining_kw s,
              commands = l_commands s, alerts = l_alerts s,
              explanations = l_explanations s\<rparr>"
      using make_plan_unfold by blast
    have vis': "?t \<in> set (visited now prices site (initial_state vehicles chargers routes site)
                        (allocation_order now vehicles chargers routes))"
      using vis by (simp add: visited_by_plan_def)
    from plan_loop_overdue[OF lp vis' allocation_order_distinct[OF dis] d m]
    obtain e where e: "l_explanations s (v_id v) = Some e" "x_status e = erro"
      and al: "filter (\<lambda>a. alert_vehicle a = v_id v) (l_alerts s) = [RouteOverdue (v_id v)]"
      and cm: "filter (\<lambda>c. cmd_vehicle_id c = v_id v) (l_commands s) = []"
      by (auto simp: initial_state_def)
    from cm have "\<forall>c\<in>set (l_commands s). cmd_vehicle_id c \<noteq> v_id v"
      by (simp add: filter_empty_conv)
    then show ?thesis using mp e al by simp
  qed
  from a b show ?thesis by blast
qed

section \<open>Worked examples\<close>

lemma ex_plan_single:
  "map set_kw (commands (projr (make_plan 0 [ex_v1] [ex_c1] [ex_r1] [] ex_site))) = [25]"
  "total_kw (projr (make_plan 0 [ex_v1] [ex_c1] [ex_r1] [] ex_site)) = 25"
  "explanations (projr (make_plan 0 [ex_v1] [ex_c1] [ex_r1] [] ex_site)) ''V1'' \<noteq> None"
  "x_base (the (explanations (projr (make_plan 0 [ex_v1] [ex_c1] [ex_r1] [] ex_site)) ''V1'')) \<noteq> None"
  by code_simp+

lemma ex_plan_late:
  "visited_by_plan 0 [ex_v1] [ex_c1] [ex_r_late] [] ex_site = [(ex_v1, ex_c1, ex_r_late)]"
  by code_simp


lemma ex_plan_returns:
  "make_plan now vehicles chargers routes prices site = Inr plan \<Longrightarrow>
   projr (make_plan now vehicles chargers routes prices site) = plan"
  by simp

theorem command_within_charger_max_witness:
  "\<exists>plan. make_plan 0 [ex_v1] [ex_c1] [ex_r1] [] ex_site = Inr plan
      \<and> map set_kw (commands plan) = [25]
      \<and> (\<forall>c\<in>set (commands plan).
            \<exists>ch. charger_by_id [ex_c1] (cmd_charger_id c) = Some ch \<and> set_kw c \<le> c_max_kw ch)"
proof -
  from command_within_charger_max[of 0 "[ex_v1]" "[ex_c1]" "[ex_r1]" "[]" ex_site] obtain plan where
    p: "make_plan 0 [ex_v1] [ex_c1] [ex_r1] [] ex_site = Inr plan"
       "\<forall>c\<in>set (commands plan).
            \<exists>ch. charger_by_id [ex_c1] (cmd_charger_id c) = Some ch \<and> set_kw c \<le> c_max_kw ch"
    by blast
  have m: "map set_kw (commands plan) = [25]"
    using ex_plan_single(1) ex_plan_returns[OF p(1)] by simp
  show ?thesis by (intro conjI exI[of _ plan] p m)
qed

lemma ex_sized_none:
  "sized_kw \<lparr>remaining_kw = 0, l_commands = [], l_alerts = [], l_explanations = Map.empty\<rparr>
      (ex_v1, ex_c1, ex_r1) (1 / 2) 120 False \<le> 1 / 100"
  by code_simp

theorem commands_above_threshold_witness:
  "(\<exists>plan. make_plan 0 [ex_v1] [ex_c1] [ex_r1] [] ex_site = Inr plan
      \<and> map set_kw (commands plan) = [25]
      \<and> (\<forall>c\<in>set (commands plan). 1 / 100 < set_kw c))
   \<and> sized_kw \<lparr>remaining_kw = 0, l_commands = [], l_alerts = [], l_explanations = Map.empty\<rparr>
        (ex_v1, ex_c1, ex_r1) (1 / 2) 120 False \<le> 1 / 100
   \<and> (\<exists>e. plan_sizing
              \<lparr>remaining_kw = 0, l_commands = [], l_alerts = [], l_explanations = Map.empty\<rparr>
              (ex_v1, ex_c1, ex_r1) ex_base (1 / 2) 120 False =
            Inr (Continue,
                 \<lparr>remaining_kw = 0, l_commands = [], l_alerts = [],
                  l_explanations = [v_id ex_v1 \<mapsto> e]\<rparr>)
          \<and> x_status e = nao_planeado)"
proof -
  let ?st = "\<lparr>remaining_kw = 0, l_commands = [], l_alerts = [], l_explanations = Map.empty\<rparr>"
  note c = commands_above_threshold[of 0 "[ex_v1]" "[ex_c1]" "[ex_r1]" "[]" ex_site ?st "(ex_v1, ex_c1, ex_r1)"
              "1 / 2" 120 False ex_base]
  from c obtain plan where
    p: "make_plan 0 [ex_v1] [ex_c1] [ex_r1] [] ex_site = Inr plan"
       "\<forall>c\<in>set (commands plan). 1 / 100 < set_kw c" by blast
  have m: "map set_kw (commands plan) = [25]"
    using ex_plan_single(1) ex_plan_returns[OF p(1)] by simp
  from c ex_sized_none obtain e where
    e: "plan_sizing ?st (ex_v1, ex_c1, ex_r1) ex_base (1 / 2) 120 False =
          Inr (Continue, ?st\<lparr>l_explanations := (l_explanations ?st)(v_id (fst (ex_v1, ex_c1, ex_r1)) \<mapsto> e)\<rparr>)"
       "x_status e = nao_planeado" by blast
  from e(1) have s: "plan_sizing ?st (ex_v1, ex_c1, ex_r1) ex_base (1 / 2) 120 False =
            Inr (Continue,
                 \<lparr>remaining_kw = 0, l_commands = [], l_alerts = [],
                  l_explanations = [v_id ex_v1 \<mapsto> e]\<rparr>)" by simp
  show ?thesis
    by (intro conjI exI[of _ plan] exI[of _ e] p m s e(2) ex_sized_none)
qed

theorem make_plan_total_witness:
  "\<exists>plan e b. make_plan 0 [ex_v1] [ex_c1] [ex_r1] [] ex_site = Inr plan
      \<and> explanations plan ''V1'' = Some e \<and> x_base e = Some b \<and> \<not> price_delay_applied b"
proof -
  from make_plan_total[of 0 "[ex_v1]" "[ex_c1]" "[ex_r1]" "[]" ex_site] obtain plan where
    p: "make_plan 0 [ex_v1] [ex_c1] [ex_r1] [] ex_site = Inr plan"
       "\<forall>k e b. explanations plan k = Some e \<and> x_base e = Some b \<longrightarrow> \<not> price_delay_applied b"
    by blast
  from ex_plan_single(3,4) ex_plan_returns[OF p(1)] obtain e b where
    e: "explanations plan ''V1'' = Some e" "x_base e = Some b" by auto
  have "\<not> price_delay_applied b" using p(2) e by blast
  then show ?thesis by (intro exI[of _ plan] exI[of _ e] exI[of _ b] conjI p(1) e)
qed



theorem overdue_route_no_command_witness:
  "0 < r_required_soc_min ex_r_late - v_soc ex_v1
   \<and> total_seconds (r_start_time ex_r_late - 0) / 60 \<le> 0
   \<and> (ex_v1, ex_c1, ex_r_late) \<in> set (visited_by_plan 0 [ex_v1] [ex_c1] [ex_r_late] [] ex_site)
   \<and> distinct (map v_id [ex_v1])
   \<and> (\<exists>plan e. make_plan 0 [ex_v1] [ex_c1] [ex_r_late] [] ex_site = Inr plan
           \<and> explanations plan (v_id ex_v1) = Some e \<and> x_status e = erro
           \<and> filter (\<lambda>a. alert_vehicle a = v_id ex_v1) (alerts plan) = [RouteOverdue (v_id ex_v1)]
           \<and> (\<forall>c\<in>set (commands plan). cmd_vehicle_id c \<noteq> v_id ex_v1))"
proof -
  have d: "0 < r_required_soc_min ex_r_late - v_soc ex_v1"
    by (simp add: ex_r_late_def ex_v1_def)
  have m: "total_seconds (r_start_time ex_r_late - 0) / 60 \<le> 0"
    by (simp add: ex_r_late_def total_seconds_def)
  have v: "(ex_v1, ex_c1, ex_r_late) \<in> set (visited_by_plan 0 [ex_v1] [ex_c1] [ex_r_late] [] ex_site)"
    by (simp add: ex_plan_late)
  have i: "distinct (map v_id [ex_v1])" by simp
  from overdue_route_no_command[OF d m, where prices = "[]" and site = ex_site and ch = ex_c1 and vehicles = "[ex_v1]"
            and chargers = "[ex_c1]" and routes = "[ex_r_late]"] v i
  have r: "\<exists>plan e. make_plan 0 [ex_v1] [ex_c1] [ex_r_late] [] ex_site = Inr plan
           \<and> explanations plan (v_id ex_v1) = Some e \<and> x_status e = erro
           \<and> filter (\<lambda>a. alert_vehicle a = v_id ex_v1) (alerts plan) = [RouteOverdue (v_id ex_v1)]
           \<and> (\<forall>c\<in>set (commands plan). cmd_vehicle_id c \<noteq> v_id ex_v1)" by blast
  show ?thesis by (intro conjI d m v i r)
qed

section \<open>Doubles: rounding and order\<close>

lemma binade_numeral:
  "binade (numeral k) x e p =
     (if 2 \<le> x then binade (pred_numeral k) (x / 2) (e + 1) (p * 2)
      else if x < 1 \<and> - 1022 < e then binade (pred_numeral k) (x * 2) (e - 1) (p / 2)
      else p)"
  by (simp add: numeral_eq_Suc)

lemmas fl_eval = fl_def binade_numeral round_half_even_def Let_def overflow_threshold_def
  ulps_per_binade_def sub_f_def



lemma fl_not_nan: "fl x \<noteq> NaN"
  by (simp add: fl_def Let_def)










section \<open>The stable descending sort\<close>



lemma length_insort_reverse_f: "length (insort_reverse_f k x ys) = Suc (length ys)"
  by (induction ys) auto

lemma length_sort_reverse_f: "length (sort_reverse_f k xs) = length xs"
  unfolding sort_reverse_f_def by (induction xs) (simp_all add: length_insort_reverse_f)





section \<open>The loops over doubles\<close>











section \<open>Worked examples over doubles\<close>


lemma fx_fields:
  "fv_id fx_va = ''A''" "fv_state fx_va = DISPONIVEL" "fv_charger_id fx_va = Some ''C1''"
  "fv_id fx_vb = ''B''" "fv_state fx_vb = DISPONIVEL" "fv_charger_id fx_vb = Some ''C2''"
  "fc_id fx_c1 = ''C1''" "fc_enabled fx_c1" "fc_id fx_c2 = ''C2''" "fc_enabled fx_c2"
  "fr_vehicle_id fx_ra = ''A''" "fr_vehicle_id fx_rb = ''B''"
  by (simp_all add: fx_va_def fx_vb_def fx_c1_def fx_c2_def fx_ra_def fx_rb_def)


lemma fx_nan_fields:
  "fv_id fx_nan = ''V1''" "fv_state fx_nan = DISPONIVEL" "fv_charger_id fx_nan = Some ''C1''"
  "fv_battery_kwh fx_nan = NaN" "fv_soc fx_nan = fl (3 / 10)" "fv_temp_c fx_nan = Fin 20"
  "fc_max_kw fx_c1 = Fin 50"
  "fr_vehicle_id fx_r1 = ''V1''" "fr_start_time fx_r1 = 7200000000"
  "fr_required_soc_min fx_r1 = fl (8 / 10)"
  by (simp_all add: fx_nan_def fx_c1_def fx_r1_def)

lemma fx_nan_order:
  "allocation_order_f 0 [fx_nan] [fx_c1] [fx_r1] = [(fx_nan, fx_c1, fx_r1)]"
  unfolding allocation_order_f_def eligible_f_def filtragem_f_def sort_reverse_f_def
    urgency_key_f_def charger_by_id_f_def route_by_vehicle_f_def
  by (simp add: filter_step_f_def Let_def fx_fields fx_nan_fields)

lemma fx_nan_plan:
  "\<not> isl (make_plan_f 0 [fx_nan] [fx_c1] [fx_r1] [] \<lparr>fsite_max_kw = Fin 10\<rparr>)"
  "map fset_kw (f_commands (projr (make_plan_f 0 [fx_nan] [fx_c1] [fx_r1] []
                                     \<lparr>fsite_max_kw = Fin 10\<rparr>))) = [Fin 50]"
  unfolding make_plan_f_def fx_nan_order plan_loop_f.simps plan_step_f_def plan_sizing_f_def
    Let_def initial_state_f_def finish_f_def battery_friendly_kw_f_def clamp_f_def min3_def
    should_delay_charging_f_def price_at_f_def min_price_until_f_def
    default_delay_margin_f_def default_urgency_minutes_f_def total_seconds_f_def
  by (simp_all add: fl_eval fx_nan_fields fx_fields max2_def min2_def gt_f_def ge_f_def le_f_def
        truediv_f_def)

section \<open>Deferral, site budget and visiting order over doubles\<close>

lemma default_factor_f: "add_f (Fin 1) default_delay_margin_f = fl (115 / 100)"
  by (simp add: default_delay_margin_f_def fl_eval)

lemma not_le_f_zero: "a \<noteq> NaN \<Longrightarrow> \<not> le_f a (Fin c) \<longleftrightarrow> gt_f a (Fin c)"
  by (simp add: le_f_def gt_f_def)

text \<open>
  Known results of double arithmetic, as a check of \<open>fl\<close>: \<open>0.1 + 0.2\<close> is
  0.30000000000000004, \<open>0.2 * 1.15\<close> is 0.22999999999999998, and \<open>0.5 - 0.2\<close> is 0.3
  while \<open>0.4 - 0.1\<close> is 0.30000000000000004.
\<close>

lemma double_known_answers:
  "add_f (fl (1 / 10)) (fl (2 / 10)) = Fin (1351079888211149 / 4503599627370496)"
  "mul_f (fl (2 / 10)) (fl (115 / 100)) = Fin (517913957147607 / 2251799813685248)"
  "sub_f (fl (5 / 10)) (fl (2 / 10)) = fl (3 / 10)"
  "sub_f (fl (4 / 10)) (fl (1 / 10)) = Fin (1351079888211149 / 4503599627370496)"
  "fl (3 / 10) = Fin (5404319552844595 / 18014398509481984)"
  by (simp_all add: fl_eval)

text \<open>
  With a deficit of \<open>nan\<close> the guard \<open>deficit_soc <= 0\<close> is false, and the decision can be
  true although the deficit is not \<open>> 0\<close>.  \<open>make_plan\<close> never passes such a deficit:
  \<open>max(0.0, x)\<close> is never \<open>nan\<close>.
\<close>

lemma should_delay_charging_f_nan_deficit:
  "should_delay_charging_f (Some (fl (3 / 10))) (Some (fl (2 / 10))) (Fin 120) NaN
     default_delay_margin_f default_urgency_minutes_f
   \<and> \<not> gt_f NaN (Fin 0)"
  unfolding should_delay_charging_f_def default_factor_f
  by (simp add: default_urgency_minutes_f_def fl_eval gt_f_def le_f_def)

text \<open>
  Claim C4, amended.  With the default margin 0.15 and the default 60 urgency minutes,
  \<open>should_delay_charging\<close> answers true exactly when the deficit is not \<open>\<le> 0\<close>, the minutes
  to the start are not \<open>\<le> 60\<close>, both prices are there, and the price now is above the
  double product of the best future price and 1.15 (\<open>1.0 + 0.15\<close> is the double 1.15).
  For a deficit and minutes other than \<open>nan\<close> that is: deficit \<open>> 0\<close> and minutes \<open>> 60\<close>.
  It answers false, whatever the prices, when the minutes are \<open>\<le> 60\<close> or the deficit is
  \<open>\<le> 0\<close>.
\<close>

theorem should_delay_charging_double:
  "(should_delay_charging_f price_now best_future_price minutes_to_start deficit
      default_delay_margin_f default_urgency_minutes_f
    \<longleftrightarrow> \<not> le_f deficit (Fin 0) \<and> \<not> le_f minutes_to_start (Fin 60) \<and>
        price_now \<noteq> None \<and> best_future_price \<noteq> None \<and>
        gt_f (the price_now) (mul_f (the best_future_price) (fl (115 / 100))))
   \<and> (deficit \<noteq> NaN \<and> minutes_to_start \<noteq> NaN \<longrightarrow>
       (should_delay_charging_f price_now best_future_price minutes_to_start deficit
          default_delay_margin_f default_urgency_minutes_f
        \<longleftrightarrow> gt_f deficit (Fin 0) \<and> gt_f minutes_to_start (Fin 60) \<and>
            price_now \<noteq> None \<and> best_future_price \<noteq> None \<and>
            gt_f (the price_now) (mul_f (the best_future_price) (fl (115 / 100)))))
   \<and> (le_f minutes_to_start (Fin 60) \<or> le_f deficit (Fin 0) \<longrightarrow>
        \<not> should_delay_charging_f price_now best_future_price minutes_to_start deficit
            default_delay_margin_f default_urgency_minutes_f)"
proof -
  have a: "should_delay_charging_f price_now best_future_price minutes_to_start deficit
      default_delay_margin_f default_urgency_minutes_f
    \<longleftrightarrow> \<not> le_f deficit (Fin 0) \<and> \<not> le_f minutes_to_start (Fin 60) \<and>
        price_now \<noteq> None \<and> best_future_price \<noteq> None \<and>
        gt_f (the price_now) (mul_f (the best_future_price) (fl (115 / 100)))"
    unfolding should_delay_charging_f_def default_factor_f
    by (simp add: default_urgency_minutes_f_def)
  show ?thesis
    unfolding a using not_le_f_zero[of deficit 0] not_le_f_zero[of minutes_to_start 60] by blast
qed

theorem should_delay_charging_double_witness:
  "fl (1 / 2) \<noteq> NaN \<and> Fin 120 \<noteq> NaN
   \<and> should_delay_charging_f (Some (fl (23 / 100))) (Some (fl (2 / 10))) (Fin 120) (fl (1 / 2))
        default_delay_margin_f default_urgency_minutes_f
   \<and> gt_f (fl (23 / 100)) (mul_f (fl (2 / 10)) (fl (115 / 100)))
   \<and> le_f (Fin 60) (Fin 60)
   \<and> \<not> should_delay_charging_f (Some (fl (23 / 100))) (Some (fl (2 / 10))) (Fin 60) (fl (1 / 2))
        default_delay_margin_f default_urgency_minutes_f"
proof -
  have g: "gt_f (fl (23 / 100)) (mul_f (fl (2 / 10)) (fl (115 / 100)))"
    by (simp add: fl_eval gt_f_def)
  have d: "gt_f (fl (1 / 2)) (Fin 0)" "fl (1 / 2) \<noteq> NaN" by (simp_all add: fl_eval gt_f_def)
  have m: "gt_f (Fin 120) (Fin 60)" "Fin 120 \<noteq> NaN" "le_f (Fin 60) (Fin 60)"
    by (simp_all add: gt_f_def le_f_def)
  note c = should_delay_charging_double[where price_now = "Some (fl (23 / 100))" and best_future_price = "Some (fl (2 / 10))"
                and minutes_to_start = "Fin 120" and deficit = "fl (1 / 2)",
              THEN conjunct2, THEN conjunct1, rule_format, OF conjI[OF d(2) m(2)]]
  have t: "should_delay_charging_f (Some (fl (23 / 100))) (Some (fl (2 / 10))) (Fin 120) (fl (1 / 2))
        default_delay_margin_f default_urgency_minutes_f"
    unfolding c using g d(1) m(1) by simp
  note e = should_delay_charging_double[where price_now = "Some (fl (23 / 100))" and best_future_price = "Some (fl (2 / 10))"
                and minutes_to_start = "Fin 60" and deficit = "fl (1 / 2)",
              THEN conjunct2, THEN conjunct2, rule_format, OF disjI1[OF m(3)]]
  have f: "\<not> should_delay_charging_f (Some (fl (23 / 100))) (Some (fl (2 / 10))) (Fin 60) (fl (1 / 2))
        default_delay_margin_f default_urgency_minutes_f"
    by (rule e)
  show ?thesis by (intro conjI d(2) m(2) t g m(3) f)
qed

text \<open>
  Prices 0.23 and 0.20 (as doubles), 120 minutes, a deficit of 0.5: the answer is true,
  because the double product \<open>0.2 * 1.15\<close> is 0.22999999999999998; in exact arithmetic
  the double 0.23 is not above 1.15 times the double 0.2, nor is 0.23 above
  \<open>0.20 * 1.15\<close>.
\<close>

theorem should_delay_charging_double_counterexample:
  "fl (23 / 100) = Fin (8286623314361713 / 36028797018963968)
   \<and> fl (2 / 10) = Fin (3602879701896397 / 18014398509481984)
   \<and> should_delay_charging_f (Some (fl (23 / 100))) (Some (fl (2 / 10))) (Fin 120) (fl (1 / 2))
        default_delay_margin_f default_urgency_minutes_f
   \<and> \<not> (8286623314361713 / 36028797018963968
          > (3602879701896397 / 18014398509481984) * (115 / 100 :: real))
   \<and> \<not> ((23 / 100 :: real) > 2 / 10 * (115 / 100))"
  unfolding should_delay_charging_f_def default_factor_f
  by (simp add: default_urgency_minutes_f_def fl_eval gt_f_def le_f_def)

text \<open>
  Claim C2.  The sum of \<open>set_kw\<close> over the commands is to stay within
  \<open>site_max_kw + 0.01\<close>.  The source does not keep it for a vehicle whose battery capacity
  is \<open>nan\<close>: \<open>min(avg_kw_needed, ch.max_kw, remaining_kw)\<close> is \<open>nan\<close>, \<open>clamp\<close> turns it
  into the charger maximum, and with a site cap of 10 the plan holds one command of 50.
\<close>

theorem budget_exceeded_nan_battery:
  "\<not> isl (make_plan_f 0 [fx_nan] [fx_c1] [fx_r1] [] \<lparr>fsite_max_kw = Fin 10\<rparr>)
   \<and> map fset_kw (f_commands (projr (make_plan_f 0 [fx_nan] [fx_c1] [fx_r1] []
                                       \<lparr>fsite_max_kw = Fin 10\<rparr>))) = [Fin 50]
   \<and> \<not> le_f (sum_f (map fset_kw (f_commands (projr (make_plan_f 0 [fx_nan] [fx_c1] [fx_r1] []
                                                       \<lparr>fsite_max_kw = Fin 10\<rparr>)))))
            (add_f (fsite_max_kw \<lparr>fsite_max_kw = Fin 10\<rparr>) (fl (1 / 100)))"
  unfolding fx_nan_plan(2)
  by (simp add: fx_nan_plan(1) sum_f_def fl_eval le_f_def)



end
